theory Spec2Isabelle
  imports Main
begin

section \<open>The tax-ID checksum validator (services/admin_service.go, validateCNPJFormat)\<close>

text \<open>
  Go strings are byte sequences; a \<^typ>\<open>string\<close> is the list of those bytes. The
  messages of the source contain letters outside ASCII, written here as their UTF-8 bytes.
\<close>

definition a_acute :: string where "a_acute = [CHR 0xC3, CHR 0xA1]"
definition a_tilde :: string where "a_tilde = [CHR 0xC3, CHR 0xA3]"
definition e_circ :: string where "e_circ = [CHR 0xC3, CHR 0xAA]"
definition i_acute :: string where "i_acute = [CHR 0xC3, CHR 0xAD]"

text \<open>\<^verbatim>\<open>"CNPJ deve conter 14 digitos"\<close> (with i-acute)\<close>
definition msg_14_digits :: string where
  "msg_14_digits = ''CNPJ deve conter 14 d'' @ i_acute @ ''gitos''"

text \<open>\<^verbatim>\<open>"CNPJ invalido: todos os digitos sao iguais"\<close> (with a-acute, i-acute, a-tilde)\<close>
definition msg_all_equal :: string where
  "msg_all_equal = ''CNPJ inv'' @ a_acute @ ''lido: todos os d'' @ i_acute @ ''gitos s''
     @ a_tilde @ ''o iguais''"

text \<open>\<^verbatim>\<open>"CNPJ invalido: primeiro digito verificador incorreto"\<close>\<close>
definition msg_first_digit :: string where
  "msg_first_digit = ''CNPJ inv'' @ a_acute @ ''lido: primeiro d'' @ i_acute
     @ ''gito verificador incorreto''"

text \<open>\<^verbatim>\<open>"CNPJ invalido: segundo digito verificador incorreto"\<close>\<close>
definition msg_second_digit :: string where
  "msg_second_digit = ''CNPJ inv'' @ a_acute @ ''lido: segundo d'' @ i_acute
     @ ''gito verificador incorreto''"

text \<open>\<^verbatim>\<open>"CNPJ valido"\<close>\<close>
definition msg_valid :: string where
  "msg_valid = ''CNPJ v'' @ a_acute @ ''lido''"

text \<open>
  The regular expression \<^verbatim>\<open>[^0-9]\<close> matches every rune that is not an ASCII digit;
  each byte of a rune outside ASCII (and each byte of invalid UTF-8) is at least 0x80, so
  \<^verbatim>\<open>ReplaceAllString(cnpj, "")\<close> keeps exactly the bytes 0x30 .. 0x39.
\<close>

definition is_digit :: "char \<Rightarrow> bool" where
  "is_digit c \<longleftrightarrow> (48::nat) \<le> of_char c \<and> (of_char c :: nat) \<le> 57"

definition strip_non_digits :: "string \<Rightarrow> string" where
  "strip_non_digits cnpj = filter is_digit cnpj"

text \<open>\<^verbatim>\<open>int(cnpj[i] - '0')\<close>: the subtraction is on bytes and wraps modulo 256.\<close>

definition digit :: "char \<Rightarrow> int" where
  "digit c = (int (of_char c) - 48) mod 256"

text \<open>
  \<^verbatim>\<open>for i := 1; i < len(cnpj); i++ { if cnpj[i] != cnpj[0] { allEqual = false; break } }\<close>
\<close>

function allEqual_loop :: "string \<Rightarrow> nat \<Rightarrow> bool" where
  "allEqual_loop cnpj i =
     (if i < length cnpj
      then (if cnpj ! i \<noteq> cnpj ! 0 then False else allEqual_loop cnpj (i + 1))
      else True)"
  by pat_completeness auto
termination
  by (relation "measure (\<lambda>(cnpj, i). length cnpj - i)") auto

text \<open>
  \<^verbatim>\<open>for i := 0; i < n; i++ { digit := int(cnpj[i] - '0'); sum += digit * weight[i] }\<close>
  The running sum \<open>sm\<close> (\<^verbatim>\<open>sum\<close> in the source) is a Go \<^verbatim>\<open>int\<close>; it stays far
  from any overflow.
\<close>

function sum_loop :: "string \<Rightarrow> int list \<Rightarrow> nat \<Rightarrow> nat \<Rightarrow> int \<Rightarrow> int" where
  "sum_loop cnpj weight n i sm =
     (if i < n then sum_loop cnpj weight n (i + 1) (sm + digit (cnpj ! i) * (weight ! i))
      else sm)"
  by pat_completeness auto
termination
  by (relation "measure (\<lambda>(cnpj, weight, n, i, sm). n - i)") auto

definition weight1 :: "int list" where
  "weight1 = [5, 4, 3, 2, 9, 8, 7, 6, 5, 4, 3, 2]"

definition weight2 :: "int list" where
  "weight2 = [6, 5, 4, 3, 2, 9, 8, 7, 6, 5, 4, 3, 2]"

definition verificationDigit :: "int \<Rightarrow> int" where
  "verificationDigit sm =
     (let remainder = sm mod 11 in if remainder \<ge> 2 then 11 - remainder else 0)"

definition validateCNPJFormat :: "string \<Rightarrow> bool \<times> string" where
  "validateCNPJFormat cnpj0 =
     (let cnpj = strip_non_digits cnpj0 in
      if length cnpj \<noteq> 14 then (False, msg_14_digits)
      else if allEqual_loop cnpj 1 then (False, msg_all_equal)
      else if digit (cnpj ! 12) \<noteq> verificationDigit (sum_loop cnpj weight1 12 0 0)
        then (False, msg_first_digit)
      else if digit (cnpj ! 13) \<noteq> verificationDigit (sum_loop cnpj weight2 13 0 0)
        then (False, msg_second_digit)
      else (True, msg_valid))"

subsection \<open>The validator as the specification words it\<close>

text \<open>The numeric value of a digit character.\<close>

definition digit_value :: "char \<Rightarrow> int" where
  "digit_value c = int (of_char c) - 48"

text \<open>
  The check digit over a sequence of digit values with a sequence of weights: the
  weighted sum, its remainder modulo 11, and 0 when that remainder is below 2, else 11
  minus the remainder.
\<close>

definition check_digit :: "int list \<Rightarrow> int list \<Rightarrow> int" where
  "check_digit ws ds =
     (let r = (\<Sum>(w, d) \<leftarrow> zip ws ds. d * w) mod 11 in if r < 2 then 0 else 11 - r)"

definition all_digits_equal :: "string \<Rightarrow> bool" where
  "all_digits_equal ds \<longleftrightarrow> (\<forall>c \<in> set ds. c = hd ds)"

definition spec_validate :: "string \<Rightarrow> bool \<times> string" where
  "spec_validate taxID =
     (let ds = filter is_digit taxID; vs = map digit_value ds in
      if length ds \<noteq> 14 then (False, msg_14_digits)
      else if all_digits_equal ds then (False, msg_all_equal)
      else if vs ! 12 \<noteq> check_digit [5, 4, 3, 2, 9, 8, 7, 6, 5, 4, 3, 2] (take 12 vs)
        then (False, msg_first_digit)
      else if vs ! 13 \<noteq> check_digit [6, 5, 4, 3, 2, 9, 8, 7, 6, 5, 4, 3, 2] (take 13 vs)
        then (False, msg_second_digit)
      else (True, msg_valid))"

section \<open>Mock references (services/utils.go)\<close>

text \<open>
  \<^verbatim>\<open>rand.Intn(n)\<close> returns some number in \<open>[0, n)\<close>. The generator is a parameter
  \<open>rnd\<close>: the \<open>i\<close>-th draw of one call is \<open>rnd i mod n\<close>, so every sequence of draws is
  covered. \<^verbatim>\<open>hash += string(charset[rand.Intn(len(charset))])\<close> appends one byte.
\<close>

function mockHash_loop :: "string \<Rightarrow> (nat \<Rightarrow> nat) \<Rightarrow> int \<Rightarrow> int \<Rightarrow> string \<Rightarrow> string" where
  "mockHash_loop charset rnd n i hash =
     (if i < n
      then mockHash_loop charset rnd n (i + 1)
             (hash @ [charset ! (rnd (nat i) mod length charset)])
      else hash)"
  by pat_completeness auto
termination
  by (relation "measure (\<lambda>(charset, rnd, n, i, hash). nat (n - i))") auto

definition generateMockTransactionHash :: "(nat \<Rightarrow> nat) \<Rightarrow> string" where
  "generateMockTransactionHash rnd = mockHash_loop ''abcdef0123456789'' rnd 64 0 ''0x''"

definition generateMockHash :: "int \<Rightarrow> (nat \<Rightarrow> nat) \<Rightarrow> string" where
  "generateMockHash len rnd =
     mockHash_loop ''abcdefghijklmnopqrstuvwxyzABCDEFGHIJKLMNOPQRSTUVWXYZ0123456789''
       rnd len 0 []"

section \<open>Data model (models/models.go)\<close>

text \<open>
  A Go \<^verbatim>\<open>uint\<close> identifier is a \<^typ>\<open>nat\<close> (identifiers are lengths of in-memory slices
  plus one). A \<^verbatim>\<open>time.Time\<close> is a number of nanoseconds since the Unix epoch. Record
  fields carry a prefix, since Isabelle record fields share one name space.
\<close>

type_synonym Time = int

datatype NGORegistrationStatus =
    NGOStatusPending | NGOStatusValidating | NGOStatusRejected | NGOStatusApproved

text \<open>The string value of each status constant.\<close>

fun status_string :: "NGORegistrationStatus \<Rightarrow> string" where
  "status_string NGOStatusPending = ''pendente''"
| "status_string NGOStatusValidating = ''validando''"
| "status_string NGOStatusRejected = ''rejeitado''"
| "status_string NGOStatusApproved = ''aprovado''"

record NGORegistrationRequest =
  req_Name :: string
  req_Description :: string
  req_Category :: string
  req_CNPJ :: string
  req_Email :: string
  req_Phone :: string
  req_Address :: string
  req_ResponsibleID :: nat
  req_LogoURL :: string

record NGORegistration =
  reg_ID :: nat
  reg_Name :: string
  reg_Description :: string
  reg_Category :: string
  reg_CNPJ :: string
  reg_CNPJValid :: bool
  reg_CNPJValidationMsg :: string
  reg_Email :: string
  reg_Phone :: string
  reg_Address :: string
  reg_ResponsibleID :: nat
  reg_LogoURL :: string
  reg_DocumentsIPFS :: string
  reg_BlockchainRef :: string
  reg_Status :: NGORegistrationStatus
  reg_AdminComments :: string
  reg_CreatedAt :: Time
  reg_UpdatedAt :: Time

record NGO =
  ngo_ID :: nat
  ngo_Name :: string
  ngo_Description :: string
  ngo_Category :: string
  ngo_CNPJ :: string
  ngo_Email :: string
  ngo_Phone :: string
  ngo_Address :: string
  ngo_LogoURL :: string
  ngo_DocumentsIPFS :: string
  ngo_BlockchainRef :: string
  ngo_ResponsibleID :: nat
  ngo_CreatedAt :: Time
  ngo_UpdatedAt :: Time

text \<open>The \<^verbatim>\<open>float64\<close> amounts of donations, receipts and expenses are left out: no
  operation modelled here reads them.\<close>

record Donation =
  don_ID :: nat
  don_DonorID :: nat
  don_NGOID :: nat
  don_CreatedAt :: Time
  don_Status :: string
  don_TransactionHash :: string

record DonationReceipt =
  rcp_ID :: nat
  rcp_DonationID :: nat
  rcp_TransactionHash :: string
  rcp_IPFSHash :: string

record Expense =
  exp_ID :: nat
  exp_DonationID :: nat
  exp_NGOID :: nat
  exp_ReceiptIPFS :: string
  exp_BlockchainRef :: string
  exp_Status :: string

record AuditRequest =
  areq_EntityType :: string
  areq_EntityID :: nat

record AuditResult =
  res_EntityType :: string
  res_EntityID :: nat
  res_BlockchainValid :: bool
  res_IPFSValid :: bool
  res_BlockchainRef :: string
  res_IPFSRef :: string
  res_ValidationDate :: Time
  res_ValidationErrors :: "string list"

record AuditLog =
  log_ID :: nat
  log_AdminID :: nat
  log_Action :: string
  log_EntityType :: string
  log_EntityID :: nat
  log_PreviousState :: string
  log_NewState :: string
  log_Comments :: string
  log_BlockchainValid :: bool
  log_IPFSValid :: bool
  log_ValidationErrors :: "string list"
  log_CreatedAt :: Time

record DonationService =
  ds_donations :: "Donation list"
  ds_ngos :: "NGO list"
  ds_receipts :: "DonationReceipt list"

record ExpenseService =
  es_expenses :: "Expense list"

section \<open>The administration service (services/admin_service.go)\<close>

text \<open>
  The service holds its collections in memory. The donation and expense services are
  reached through pointers in the source; the state holds their current contents.
\<close>

record AdminService =
  donations :: "Donation list"
  ngos :: "NGO list"
  ngoRegistrations :: "NGORegistration list"
  auditLogs :: "AuditLog list"
  donationService :: DonationService
  expenseService :: ExpenseService

definition NewAdminService :: "DonationService \<Rightarrow> ExpenseService \<Rightarrow> AdminService" where
  "NewAdminService donationSvc expenseSvc =
     \<lparr>donations = [], ngos = [], ngoRegistrations = [], auditLogs = [],
      donationService = donationSvc, expenseService = expenseSvc\<rparr>"

text \<open>
  Every \<^verbatim>\<open>errors.New\<close> and \<^verbatim>\<open>fmt.Errorf\<close> of the service, one constructor for each
  message:
  \<^item> \<open>ErrCNPJRegistered\<close>: "CNPJ ja registrado no sistema";
  \<^item> \<open>ErrCNPJActiveNGO\<close>: "CNPJ ja pertence a uma ONG ativa";
  \<^item> \<open>ErrRegistrationNotFound\<close>: "registro de ONG nao encontrado";
  \<^item> \<open>ErrCNPJInvalid msg\<close>: the stored validation message \<open>msg\<close>;
  \<^item> \<open>ErrCNPJNotValidatedUpload\<close>: "CNPJ deve ser validado antes do upload de documentos";
  \<^item> \<open>ErrCNPJNotValidated\<close>: "CNPJ nao foi validado";
  \<^item> \<open>ErrDocumentsNotSent\<close>: "documentos nao foram enviados";
  \<^item> \<open>ErrNGONotFound\<close>: "ONG nao encontrada";
  \<^item> \<open>ErrDonationNotFound\<close>: "doacao nao encontrada";
  \<^item> \<open>ErrExpenseNotFound\<close>: "despesa nao encontrada";
  \<^item> \<open>ErrUnknownEntityType t\<close>: "tipo de entidade desconhecido: t".
\<close>

datatype error =
    ErrCNPJRegistered
  | ErrCNPJActiveNGO
  | ErrRegistrationNotFound
  | ErrCNPJInvalid string
  | ErrCNPJNotValidatedUpload
  | ErrCNPJNotValidated
  | ErrDocumentsNotSent
  | ErrNGONotFound
  | ErrDonationNotFound
  | ErrExpenseNotFound
  | ErrUnknownEntityType string

text \<open>The failure kinds of the specification's error taxonomy, for each error.\<close>

datatype error_kind =
  NotFound | DuplicateTaxID | InvalidTaxID | PreconditionFailed | UnknownEntityType

fun kind_of :: "error \<Rightarrow> error_kind" where
  "kind_of ErrCNPJRegistered = DuplicateTaxID"
| "kind_of ErrCNPJActiveNGO = DuplicateTaxID"
| "kind_of ErrRegistrationNotFound = NotFound"
| "kind_of (ErrCNPJInvalid msg) = InvalidTaxID"
| "kind_of ErrCNPJNotValidatedUpload = PreconditionFailed"
| "kind_of ErrCNPJNotValidated = PreconditionFailed"
| "kind_of ErrDocumentsNotSent = PreconditionFailed"
| "kind_of ErrNGONotFound = NotFound"
| "kind_of ErrDonationNotFound = NotFound"
| "kind_of ErrExpenseNotFound = NotFound"
| "kind_of (ErrUnknownEntityType t) = UnknownEntityType"

text \<open>
  \<open>logAuditAction\<close> appends one entry; the comment is the new state (as the source
  says), and the verification fields keep their zero values.
\<close>

definition logAuditAction ::
  "AdminService \<Rightarrow> nat \<Rightarrow> string \<Rightarrow> string \<Rightarrow> nat \<Rightarrow> string \<Rightarrow> string \<Rightarrow> Time \<Rightarrow> AdminService" where
  "logAuditAction s adminID action entityType entityID previousState newState now =
     (let logID = length (auditLogs s) + 1;
          entry = \<lparr>log_ID = logID, log_AdminID = adminID, log_Action = action,
                   log_EntityType = entityType, log_EntityID = entityID,
                   log_PreviousState = previousState, log_NewState = newState,
                   log_Comments = newState, log_BlockchainValid = False,
                   log_IPFSValid = False, log_ValidationErrors = [],
                   log_CreatedAt = now\<rparr>
      in s\<lparr>auditLogs := auditLogs s @ [entry]\<rparr>)"

text \<open>
  The search loop of the four workflow operations:
  \<^verbatim>\<open>for i, reg := range s.ngoRegistrations { if reg.ID == registrationID { ...; break } }\<close>
  It yields the first index whose record has the identifier, and a copy of that record.
\<close>

fun findRegistration ::
  "NGORegistration list \<Rightarrow> nat \<Rightarrow> nat \<Rightarrow> (nat \<times> NGORegistration) option" where
  "findRegistration [] registrationID i = None"
| "findRegistration (reg # regs) registrationID i =
     (if reg_ID reg = registrationID then Some (i, reg)
      else findRegistration regs registrationID (i + 1))"

text \<open>
  Each operation takes \<open>clock\<close>, the successive readings of \<^verbatim>\<open>time.Now()\<close> during the
  call (\<open>clock k\<close> is the \<open>k\<close>-th reading), and returns either the error or the new state
  with the returned value. An operation that returns an error has changed nothing.
\<close>

definition RegisterNGO ::
  "AdminService \<Rightarrow> NGORegistrationRequest \<Rightarrow> (nat \<Rightarrow> Time)
     \<Rightarrow> error + (AdminService \<times> NGORegistration)" where
  "RegisterNGO s req clock =
     (if find (\<lambda>reg. reg_CNPJ reg = req_CNPJ req) (ngoRegistrations s) \<noteq> None
        then Inl ErrCNPJRegistered
      else if find (\<lambda>ngo. ngo_CNPJ ngo = req_CNPJ req) (ngos s) \<noteq> None
        then Inl ErrCNPJActiveNGO
      else
        let (isValid, msg) = validateCNPJFormat (req_CNPJ req);
            registrationID = length (ngoRegistrations s) + 1;
            registration =
              \<lparr>reg_ID = registrationID, reg_Name = req_Name req,
               reg_Description = req_Description req, reg_Category = req_Category req,
               reg_CNPJ = req_CNPJ req, reg_CNPJValid = isValid,
               reg_CNPJValidationMsg = msg, reg_Email = req_Email req,
               reg_Phone = req_Phone req, reg_Address = req_Address req,
               reg_ResponsibleID = req_ResponsibleID req, reg_LogoURL = req_LogoURL req,
               reg_DocumentsIPFS = [], reg_BlockchainRef = [],
               reg_Status = NGOStatusPending, reg_AdminComments = [],
               reg_CreatedAt = clock 0, reg_UpdatedAt = clock 1\<rparr>;
            s1 = s\<lparr>ngoRegistrations := ngoRegistrations s @ [registration]\<rparr>;
            s2 = logAuditAction s1 0 ''ngo_registration_created'' ''ngo_registration''
                   registrationID []
                   (''Registro de ONG solicitado: '' @ req_Name req @ '' (CNPJ: ''
                      @ req_CNPJ req @ '')'')
                   (clock 2)
        in Inr (s2, registration))"

text \<open>\<^verbatim>\<open>"CNPJ verificado online e valido"\<close> (with a-acute)\<close>
definition msg_verified_online :: string where
  "msg_verified_online = ''CNPJ verificado online e v'' @ a_acute @ ''lido''"

definition ValidateCNPJOnline ::
  "AdminService \<Rightarrow> nat \<Rightarrow> (nat \<Rightarrow> Time) \<Rightarrow> error + (AdminService \<times> NGORegistration)" where
  "ValidateCNPJOnline s registrationID clock =
     (case findRegistration (ngoRegistrations s) registrationID 0 of
        None \<Rightarrow> Inl ErrRegistrationNotFound
      | Some (index, registration) \<Rightarrow>
          if reg_CNPJValid registration then
            let regs = (ngoRegistrations s)
                  [index := (ngoRegistrations s ! index)
                     \<lparr>reg_CNPJValid := True,
                      reg_CNPJValidationMsg := msg_verified_online,
                      reg_Status := NGOStatusValidating,
                      reg_UpdatedAt := clock 0\<rparr>];
                s1 = s\<lparr>ngoRegistrations := regs\<rparr>;
                s2 = logAuditAction s1 0 ''cnpj_validated'' ''ngo_registration''
                       registrationID (status_string (reg_Status registration))
                       (status_string NGOStatusValidating) (clock 1)
            in Inr (s2, ngoRegistrations s2 ! index)
          else Inl (ErrCNPJInvalid (reg_CNPJValidationMsg registration)))"

text \<open>
  The uploaded bytes are not read by the source. Clock reading 0 is the seed of the
  generator inside \<open>generateMockHash\<close>.
\<close>

definition UploadNGODocuments ::
  "AdminService \<Rightarrow> nat \<Rightarrow> string \<Rightarrow> (nat \<Rightarrow> nat) \<Rightarrow> (nat \<Rightarrow> Time)
     \<Rightarrow> error + (AdminService \<times> NGORegistration)" where
  "UploadNGODocuments s registrationID fileContent rnd clock =
     (case findRegistration (ngoRegistrations s) registrationID 0 of
        None \<Rightarrow> Inl ErrRegistrationNotFound
      | Some (index, registration) \<Rightarrow>
          if \<not> reg_CNPJValid registration then Inl ErrCNPJNotValidatedUpload
          else
            let ipfsHash = ''Qm'' @ generateMockHash 46 rnd;
                regs = (ngoRegistrations s)
                  [index := (ngoRegistrations s ! index)
                     \<lparr>reg_DocumentsIPFS := ipfsHash, reg_UpdatedAt := clock 1\<rparr>];
                s1 = s\<lparr>ngoRegistrations := regs\<rparr>;
                s2 = logAuditAction s1 0 ''documents_uploaded'' ''ngo_registration''
                       registrationID []
                       (''Documentos enviados para IPFS: '' @ ipfsHash) (clock 2)
            in Inr (s2, ngoRegistrations s2 ! index))"

text \<open>Clock reading 0 is the seed of the generator inside \<open>generateMockTransactionHash\<close>.\<close>

definition ApproveNGO ::
  "AdminService \<Rightarrow> nat \<Rightarrow> nat \<Rightarrow> string \<Rightarrow> (nat \<Rightarrow> nat) \<Rightarrow> (nat \<Rightarrow> Time)
     \<Rightarrow> error + (AdminService \<times> NGO)" where
  "ApproveNGO s registrationID adminID comments rnd clock =
     (case findRegistration (ngoRegistrations s) registrationID 0 of
        None \<Rightarrow> Inl ErrRegistrationNotFound
      | Some (regIndex, registration) \<Rightarrow>
          if \<not> reg_CNPJValid registration then Inl ErrCNPJNotValidated
          else if reg_DocumentsIPFS registration = [] then Inl ErrDocumentsNotSent
          else
            let blockchainRef = generateMockTransactionHash rnd;
                regs = (ngoRegistrations s)
                  [regIndex := (ngoRegistrations s ! regIndex)
                     \<lparr>reg_BlockchainRef := blockchainRef,
                      reg_Status := NGOStatusApproved,
                      reg_AdminComments := comments,
                      reg_UpdatedAt := clock 1\<rparr>];
                ngoID = length (ngos s) + 1;
                ngo = \<lparr>ngo_ID = ngoID, ngo_Name = reg_Name registration,
                       ngo_Description = reg_Description registration,
                       ngo_Category = reg_Category registration,
                       ngo_CNPJ = reg_CNPJ registration,
                       ngo_Email = reg_Email registration,
                       ngo_Phone = reg_Phone registration,
                       ngo_Address = reg_Address registration,
                       ngo_LogoURL = reg_LogoURL registration,
                       ngo_DocumentsIPFS = reg_DocumentsIPFS registration,
                       ngo_BlockchainRef = blockchainRef,
                       ngo_ResponsibleID = reg_ResponsibleID registration,
                       ngo_CreatedAt = clock 2, ngo_UpdatedAt = clock 3\<rparr>;
                s1 = s\<lparr>ngoRegistrations := regs, ngos := ngos s @ [ngo],
                       donationService := (donationService s)
                         \<lparr>ds_ngos := ds_ngos (donationService s) @ [ngo]\<rparr>\<rparr>;
                s2 = logAuditAction s1 adminID ''ngo_approved'' ''ngo'' ngoID
                       (status_string NGOStatusValidating)
                       (status_string NGOStatusApproved) (clock 4)
            in Inr (s2, ngo))"

definition RejectNGO ::
  "AdminService \<Rightarrow> nat \<Rightarrow> nat \<Rightarrow> string \<Rightarrow> (nat \<Rightarrow> Time)
     \<Rightarrow> error + (AdminService \<times> NGORegistration)" where
  "RejectNGO s registrationID adminID reason clock =
     (case findRegistration (ngoRegistrations s) registrationID 0 of
        None \<Rightarrow> Inl ErrRegistrationNotFound
      | Some (index, registration) \<Rightarrow>
          let regs = (ngoRegistrations s)
                [index := (ngoRegistrations s ! index)
                   \<lparr>reg_Status := NGOStatusRejected,
                    reg_AdminComments := reason,
                    reg_UpdatedAt := clock 0\<rparr>];
              s1 = s\<lparr>ngoRegistrations := regs\<rparr>;
              s2 = logAuditAction s1 adminID ''ngo_rejected'' ''ngo_registration''
                     registrationID (status_string (reg_Status registration))
                     (status_string NGOStatusRejected) (clock 1)
          in Inr (s2, ngoRegistrations s2 ! index))"

subsection \<open>The audit engine\<close>

definition is_hex :: "char \<Rightarrow> bool" where
  "is_hex c \<longleftrightarrow>
     (let n = (of_char c :: nat) in
      (48 \<le> n \<and> n \<le> 57) \<or> (97 \<le> n \<and> n \<le> 102) \<or> (65 \<le> n \<and> n \<le> 70))"

text \<open>
  The regular expression \<^verbatim>\<open>^0x[0-9a-fA-F]{64}$\<close>; in Go \<^verbatim>\<open>$\<close> matches at the end of
  the text only, and a byte outside ASCII is no hexadecimal digit.
\<close>

definition hexPattern_MatchString :: "string \<Rightarrow> bool" where
  "hexPattern_MatchString reference \<longleftrightarrow>
     take 2 reference = ''0x'' \<and> length (drop 2 reference) = 64
     \<and> list_all is_hex (drop 2 reference)"

definition verifyBlockchainReference :: "string \<Rightarrow> bool" where
  "verifyBlockchainReference reference =
     (if reference = [] then False
      else if length reference < 2 \<or> take 2 reference \<noteq> ''0x'' then False
      else if length reference \<noteq> 66 then False
      else hexPattern_MatchString reference)"

definition verifyIPFSReference :: "string \<Rightarrow> bool" where
  "verifyIPFSReference reference =
     (if reference = [] then False
      else if length reference < 2 \<or> take 2 reference \<noteq> ''Qm'' then False
      else if length reference < 46 then False
      else True)"

text \<open>\<^verbatim>\<open>"Referencia na blockchain invalida ou nao encontrada"\<close>\<close>
definition msg_blockchain_invalid :: string where
  "msg_blockchain_invalid = ''Refer'' @ e_circ @ ''ncia na blockchain inv'' @ a_acute
     @ ''lida ou n'' @ a_tilde @ ''o encontrada''"

text \<open>\<^verbatim>\<open>"Referencia no IPFS invalida ou nao encontrada"\<close>\<close>
definition msg_ipfs_invalid :: string where
  "msg_ipfs_invalid = ''Refer'' @ e_circ @ ''ncia no IPFS inv'' @ a_acute
     @ ''lida ou n'' @ a_tilde @ ''o encontrada''"

text \<open>\<^verbatim>\<open>"Auditoria concluida com sucesso"\<close>\<close>
definition msg_audit_ok :: string where
  "msg_audit_ok = ''Auditoria conclu'' @ i_acute @ ''da com sucesso''"

text \<open>\<^verbatim>\<open>%v\<close> of a slice of strings: the elements between brackets, separated by spaces.\<close>

fun join_spaces :: "string list \<Rightarrow> string" where
  "join_spaces [] = []"
| "join_spaces [x] = x"
| "join_spaces (x # y # ys) = x @ '' '' @ join_spaces (y # ys)"

definition format_v :: "string list \<Rightarrow> string" where
  "format_v xs = ''['' @ join_spaces xs @ '']''"

text \<open>
  The \<^verbatim>\<open>switch req.EntityType\<close> of \<open>AuditEntity\<close>: the ledger reference and the
  file-store reference of the entity, or the error of the branch.
\<close>

definition resolveReferences :: "AdminService \<Rightarrow> AuditRequest \<Rightarrow> error + (string \<times> string)" where
  "resolveReferences s req =
     (if areq_EntityType req = ''ngo'' then
        (case find (\<lambda>ngo. ngo_ID ngo = areq_EntityID req) (ngos s) of
           None \<Rightarrow> Inl ErrNGONotFound
         | Some ngo \<Rightarrow> Inr (ngo_BlockchainRef ngo, ngo_DocumentsIPFS ngo))
      else if areq_EntityType req = ''donation'' then
        (case find (\<lambda>donation. don_ID donation = areq_EntityID req)
                (ds_donations (donationService s)) of
           None \<Rightarrow> Inl ErrDonationNotFound
         | Some donation \<Rightarrow>
             Inr (don_TransactionHash donation,
                  (case find (\<lambda>receipt. rcp_DonationID receipt = areq_EntityID req)
                          (ds_receipts (donationService s)) of
                     None \<Rightarrow> []
                   | Some receipt \<Rightarrow> rcp_IPFSHash receipt)))
      else if areq_EntityType req = ''expense'' then
        (case find (\<lambda>expense. exp_ID expense = areq_EntityID req)
                (es_expenses (expenseService s)) of
           None \<Rightarrow> Inl ErrExpenseNotFound
         | Some expense \<Rightarrow> Inr (exp_BlockchainRef expense, exp_ReceiptIPFS expense))
      else Inl (ErrUnknownEntityType (areq_EntityType req)))"

definition AuditEntity ::
  "AdminService \<Rightarrow> AuditRequest \<Rightarrow> nat \<Rightarrow> (nat \<Rightarrow> Time) \<Rightarrow> error + (AdminService \<times> AuditResult)" where
  "AuditEntity s req adminID clock =
     (case resolveReferences s req of
        Inl e \<Rightarrow> Inl e
      | Inr (blockchainRef, ipfsRef) \<Rightarrow>
          let blockchainValid = verifyBlockchainReference blockchainRef;
              validationErrors1 = (if \<not> blockchainValid then [msg_blockchain_invalid] else []);
              ipfsValid = verifyIPFSReference ipfsRef;
              validationErrors =
                (if \<not> ipfsValid then validationErrors1 @ [msg_ipfs_invalid]
                 else validationErrors1);
              result = \<lparr>res_EntityType = areq_EntityType req,
                        res_EntityID = areq_EntityID req,
                        res_BlockchainValid = blockchainValid,
                        res_IPFSValid = ipfsValid,
                        res_BlockchainRef = blockchainRef,
                        res_IPFSRef = ipfsRef,
                        res_ValidationDate = clock 0,
                        res_ValidationErrors = validationErrors\<rparr>;
              comments = (if length validationErrors > 0
                          then ''Auditoria com erros: '' @ format_v validationErrors
                          else msg_audit_ok);
              s1 = logAuditAction s adminID ''audit_performed'' (areq_EntityType req)
                     (areq_EntityID req) [] comments (clock 1)
          in Inr (s1, result))"

subsection \<open>Sequences of operations\<close>

text \<open>
  One call of the service, with its arguments. \<open>External\<close> stands for the other services
  changing the donation and expense collections that the administration service only
  reads.
\<close>

datatype action =
    Register NGORegistrationRequest "nat \<Rightarrow> Time"
  | ValidateOnline nat "nat \<Rightarrow> Time"
  | Upload nat string "nat \<Rightarrow> nat" "nat \<Rightarrow> Time"
  | Approve nat nat string "nat \<Rightarrow> nat" "nat \<Rightarrow> Time"
  | Reject nat nat string "nat \<Rightarrow> Time"
  | Audit AuditRequest nat "nat \<Rightarrow> Time"
  | External "Donation list" "DonationReceipt list" "Expense list"

definition state_after :: "AdminService \<Rightarrow> error + (AdminService \<times> 'a) \<Rightarrow> AdminService" where
  "state_after s r = (case r of Inl e \<Rightarrow> s | Inr (s', v) \<Rightarrow> s')"

fun step :: "AdminService \<Rightarrow> action \<Rightarrow> AdminService" where
  "step s (Register req clock) = state_after s (RegisterNGO s req clock)"
| "step s (ValidateOnline rid clock) = state_after s (ValidateCNPJOnline s rid clock)"
| "step s (Upload rid content rnd clock) =
     state_after s (UploadNGODocuments s rid content rnd clock)"
| "step s (Approve rid adminID comments rnd clock) =
     state_after s (ApproveNGO s rid adminID comments rnd clock)"
| "step s (Reject rid adminID reason clock) =
     state_after s (RejectNGO s rid adminID reason clock)"
| "step s (Audit req adminID clock) = state_after s (AuditEntity s req adminID clock)"
| "step s (External ds rs es) =
     s\<lparr>donationService := (donationService s)\<lparr>ds_donations := ds, ds_receipts := rs\<rparr>,
       expenseService := (expenseService s)\<lparr>es_expenses := es\<rparr>\<rparr>"

definition run :: "AdminService \<Rightarrow> action list \<Rightarrow> AdminService" where
  "run s acts = foldl step s acts"

section \<open>The rate limiter (middleware)\<close>

text \<open>
  A \<^verbatim>\<open>time.Duration\<close> is an \<^verbatim>\<open>int64\<close> number of nanoseconds, and arithmetic on
  it wraps: \<open>int64\<close> maps an integer to the 64-bit signed value it wraps to, so the
  source's \<^verbatim>\<open>-rl.windowLength\<close> is \<open>int64 (- windowLength rl)\<close> (the smallest
  duration is its own negation). A \<^verbatim>\<open>time.Time\<close> keeps seconds and nanoseconds
  apart and does not wrap when a duration is added to an instant of the present era, so
  \<^verbatim>\<open>t.Add(d)\<close> is \<open>t + d\<close>; \<^verbatim>\<open>t.After(u)\<close> is \<open>u < t\<close> and \<^verbatim>\<open>t.Unix()\<close> is the
  number of whole seconds of \<open>t\<close>. The limit is a Go \<^verbatim>\<open>int\<close>; the only arithmetic on
  it, in the admitting branch, subtracts a smaller count from it and cannot wrap. The map
  of the source is a partial function; reading a missing key gives the empty slice.
\<close>

type_synonym Duration = int

definition int64 :: "int \<Rightarrow> int" where
  "int64 x = (x + 9223372036854775808) mod 18446744073709551616 - 9223372036854775808"

definition Unix :: "Time \<Rightarrow> int" where
  "Unix t = t div 1000000000"

record RateLimiter =
  ipLimits :: "string \<rightharpoonup> Time list"
  maxRequests :: int
  windowLength :: Duration
  enabled :: bool

definition NewRateLimiter :: "int \<Rightarrow> Duration \<Rightarrow> RateLimiter" where
  "NewRateLimiter maxRequests' windowLength' =
     \<lparr>ipLimits = Map.empty, maxRequests = maxRequests', windowLength = windowLength',
      enabled = True\<rparr>"

definition SetEnabled :: "RateLimiter \<Rightarrow> bool \<Rightarrow> RateLimiter" where
  "SetEnabled rl enabled' = rl\<lparr>enabled := enabled'\<rparr>"

text \<open>
  What the middleware does to the request: whether it lets the request pass
  (\<^verbatim>\<open>c.Next()\<close>) or aborts it with a status, and the three headers it may set (the
  numbers that \<^verbatim>\<open>%d\<close> formats).
\<close>

record Response =
  passed :: bool
  abort_status :: "nat option"
  X_RateLimit_Limit :: "int option"
  X_RateLimit_Remaining :: "int option"
  X_RateLimit_Reset :: "int option"

definition limits_of :: "(string \<rightharpoonup> Time list) \<Rightarrow> string \<Rightarrow> Time list" where
  "limits_of m ip = (case m ip of None \<Rightarrow> [] | Some ts \<Rightarrow> ts)"

text \<open>
  \<^verbatim>\<open>for _, t := range rl.ipLimits[ip] { if t.After(validTime) { validRequests = append(validRequests, t) } }\<close>
\<close>

fun validRequests_loop :: "Time list \<Rightarrow> Time \<Rightarrow> Time list \<Rightarrow> Time list" where
  "validRequests_loop [] validTime validRequests = validRequests"
| "validRequests_loop (t # ts) validTime validRequests =
     validRequests_loop ts validTime
       (if validTime < t then validRequests @ [t] else validRequests)"

definition RateLimit :: "RateLimiter \<Rightarrow> string \<Rightarrow> Time \<Rightarrow> RateLimiter \<times> Response" where
  "RateLimit rl ip now =
     (if \<not> enabled rl then
        (rl, \<lparr>passed = True, abort_status = None, X_RateLimit_Limit = None,
              X_RateLimit_Remaining = None, X_RateLimit_Reset = None\<rparr>)
      else
        let validTime = now + int64 (- windowLength rl);
            limits1 = (case ipLimits rl ip of
                         Some ts \<Rightarrow> (ipLimits rl)(ip \<mapsto> validRequests_loop ts validTime [])
                       | None \<Rightarrow> (ipLimits rl)(ip \<mapsto> []))
        in if int (length (limits_of limits1 ip)) \<ge> maxRequests rl then
             let resetTime = validTime + windowLength rl
             in (rl\<lparr>ipLimits := limits1\<rparr>,
                 \<lparr>passed = False, abort_status = Some 429,
                  X_RateLimit_Limit = Some (maxRequests rl),
                  X_RateLimit_Remaining = Some 0,
                  X_RateLimit_Reset = Some (Unix resetTime)\<rparr>)
           else
             let limits2 = limits1(ip \<mapsto> limits_of limits1 ip @ [now])
             in (rl\<lparr>ipLimits := limits2\<rparr>,
                 \<lparr>passed = True, abort_status = None,
                  X_RateLimit_Limit = Some (maxRequests rl),
                  X_RateLimit_Remaining =
                    Some (maxRequests rl - int (length (limits_of limits2 ip))),
                  X_RateLimit_Reset = None\<rparr>))"

text \<open>A sequence of admission calls, each with its caller and its instant.\<close>

definition admit_all :: "RateLimiter \<Rightarrow> (string \<times> Time) list \<Rightarrow> RateLimiter" where
  "admit_all rl calls = foldl (\<lambda>rl (ip, now). fst (RateLimit rl ip now)) rl calls"

text \<open>The responses of a sequence of admission calls, in order.\<close>

fun admit_responses :: "RateLimiter \<Rightarrow> (string \<times> Time) list \<Rightarrow> Response list" where
  "admit_responses rl [] = []"
| "admit_responses rl ((ip, now) # calls) =
     snd (RateLimit rl ip now) # admit_responses (fst (RateLimit rl ip now)) calls"

section \<open>Properties and example inputs\<close>

text \<open>
  The ledger-reference format as the specification words it: the two-character prefix
  followed by exactly 64 hexadecimal characters, 66 characters in all.
\<close>

definition spec_ledger_format :: "string \<Rightarrow> bool" where
  "spec_ledger_format r \<longleftrightarrow>
     length r = 66 \<and> take 2 r = ''0x'' \<and> (\<forall>c \<in> set (drop 2 r). is_hex c)"

text \<open>
  The relation between status and ledger reference that the workflow keeps: an approved
  record has a ledger reference, and a record with a ledger reference is no longer
  pending.
\<close>

definition ledger_consistent :: "NGORegistration \<Rightarrow> bool" where
  "ledger_consistent reg \<longleftrightarrow>
     (reg_Status reg = NGOStatusApproved \<longrightarrow> reg_BlockchainRef reg \<noteq> [])
     \<and> (reg_BlockchainRef reg \<noteq> [] \<longrightarrow> reg_Status reg \<noteq> NGOStatusPending)"

text \<open>A clock that always reads 0 and a generator that always draws 0.\<close>

definition zero_clock :: "nat \<Rightarrow> Time" where
  "zero_clock k = 0"

definition zero_rnd :: "nat \<Rightarrow> nat" where
  "zero_rnd k = 0"

definition example_request :: NGORegistrationRequest where
  "example_request =
     \<lparr>req_Name = ''Casa Azul'', req_Description = ''Abrigo'', req_Category = ''Outros'',
      req_CNPJ = ''11.222.333/0001-81'', req_Email = ''casa@example.org'',
      req_Phone = ''5511999990000'', req_Address = ''Rua A, 1'',
      req_ResponsibleID = 5, req_LogoURL = []\<rparr>"

text \<open>The same request with the tax ID written without punctuation.\<close>

definition example_request_plain :: NGORegistrationRequest where
  "example_request_plain = example_request\<lparr>req_CNPJ := ''11222333000181''\<rparr>"

definition empty_service :: AdminService where
  "empty_service =
     NewAdminService \<lparr>ds_donations = [], ds_ngos = [], ds_receipts = []\<rparr>
       \<lparr>es_expenses = []\<rparr>"

text \<open>Register, validate, upload: the registration is ready for approval.\<close>

definition example_uploaded :: AdminService where
  "example_uploaded =
     run empty_service
       [Register example_request zero_clock, ValidateOnline 1 zero_clock,
        Upload 1 [] zero_rnd zero_clock]"

definition example_approved :: AdminService where
  "example_approved = step example_uploaded (Approve 1 7 ''ok'' zero_rnd zero_clock)"

definition example_rejected :: AdminService where
  "example_rejected = step example_approved (Reject 1 7 ''late'' zero_clock)"

text \<open>A state holding one organization whose ledger reference is too short.\<close>

definition example_malformed :: AdminService where
  "example_malformed =
     empty_service
       \<lparr>ngos := [\<lparr>ngo_ID = 1, ngo_Name = ''Casa Azul'', ngo_Description = ''Abrigo'',
                  ngo_Category = ''Outros'', ngo_CNPJ = ''11.222.333/0001-81'',
                  ngo_Email = ''casa@example.org'', ngo_Phone = ''5511999990000'',
                  ngo_Address = ''Rua A, 1'', ngo_LogoURL = [],
                  ngo_DocumentsIPFS = [], ngo_BlockchainRef = ''0x12'',
                  ngo_ResponsibleID = 5, ngo_CreatedAt = 0, ngo_UpdatedAt = 0\<rparr>]\<rparr>"

section \<open>Verification\<close>

subsection \<open>The loops of the validator\<close>

declare allEqual_loop.simps [simp del]
declare sum_loop.simps [simp del]

lemma digit_is_digit: "is_digit c \<Longrightarrow> digit c = digit_value c"
  by (simp add: is_digit_def digit_def digit_value_def)

lemma allEqual_loop_iff:
  "allEqual_loop cnpj i \<longleftrightarrow> (\<forall>j. i \<le> j \<and> j < length cnpj \<longrightarrow> cnpj ! j = cnpj ! 0)"
proof (induction cnpj i rule: allEqual_loop.induct)
  case (1 cnpj i)
  show ?case
  proof (cases "i < length cnpj")
    case False
    then show ?thesis by (subst allEqual_loop.simps) auto
  next
    case True
    show ?thesis
    proof (cases "cnpj ! i = cnpj ! 0")
      case False
      with True show ?thesis by (subst allEqual_loop.simps) auto
    next
      case eq: True
      have "allEqual_loop cnpj i = allEqual_loop cnpj (i + 1)"
        using True eq by (subst allEqual_loop.simps) simp
      also have "\<dots> \<longleftrightarrow> (\<forall>j. i + 1 \<le> j \<and> j < length cnpj \<longrightarrow> cnpj ! j = cnpj ! 0)"
        using 1 True eq by simp
      also have "\<dots> \<longleftrightarrow> (\<forall>j. i \<le> j \<and> j < length cnpj \<longrightarrow> cnpj ! j = cnpj ! 0)"
      proof (intro iffI allI impI)
        fix j assume h: "\<forall>j. i + 1 \<le> j \<and> j < length cnpj \<longrightarrow> cnpj ! j = cnpj ! 0"
          and j: "i \<le> j \<and> j < length cnpj"
        show "cnpj ! j = cnpj ! 0"
        proof (cases "j = i")
          case True then show ?thesis using eq by simp
        next
          case False
          with j have "i + 1 \<le> j \<and> j < length cnpj" by simp
          with h show ?thesis by blast
        qed
      next
        fix j assume h: "\<forall>j. i \<le> j \<and> j < length cnpj \<longrightarrow> cnpj ! j = cnpj ! 0"
          and j: "i + 1 \<le> j \<and> j < length cnpj"
        then show "cnpj ! j = cnpj ! 0" by simp
      qed
      finally show ?thesis .
    qed
  qed
qed

lemma allEqual_loop_all_digits_equal:
  assumes "cnpj \<noteq> []"
  shows "allEqual_loop cnpj 1 = all_digits_equal cnpj"
proof -
  have hd0: "hd cnpj = cnpj ! 0" using assms by (simp add: hd_conv_nth)
  have "(\<forall>j. 1 \<le> j \<and> j < length cnpj \<longrightarrow> cnpj ! j = cnpj ! 0)
        \<longleftrightarrow> (\<forall>j < length cnpj. cnpj ! j = cnpj ! 0)"
  proof (intro iffI allI impI)
    fix j assume h: "\<forall>j. 1 \<le> j \<and> j < length cnpj \<longrightarrow> cnpj ! j = cnpj ! 0" and "j < length cnpj"
    then show "cnpj ! j = cnpj ! 0" by (cases j) auto
  next
    fix j assume "\<forall>j<length cnpj. cnpj ! j = cnpj ! 0" and "1 \<le> j \<and> j < length cnpj"
    then show "cnpj ! j = cnpj ! 0" by simp
  qed
  also have "\<dots> \<longleftrightarrow> (\<forall>c \<in> set cnpj. c = cnpj ! 0)"
    by (simp add: all_set_conv_all_nth)
  finally show ?thesis
    by (simp add: allEqual_loop_iff all_digits_equal_def hd0)
qed

lemma sum_loop_eq:
  "sum_loop cnpj weight n i sm = sm + (\<Sum>j = i..<n. digit (cnpj ! j) * (weight ! j))"
proof (induction cnpj weight n i sm rule: sum_loop.induct)
  case (1 cnpj weight n i sm)
  show ?case
  proof (cases "i < n")
    case True
    with 1 show ?thesis
      by (subst sum_loop.simps) (simp add: sum.atLeast_Suc_lessThan add.assoc)
  next
    case False
    then show ?thesis by (subst sum_loop.simps) simp
  qed
qed

lemma weighted_sum_nth:
  assumes "length ws = n" and "n \<le> length vs"
  shows "(\<Sum>(w, d) \<leftarrow> zip ws (take n vs). d * w) = (\<Sum>j = 0..<n. (vs ! j) * (ws ! j :: int))"
proof -
  have len: "length (zip ws (take n vs)) = n" using assms by simp
  have "(\<Sum>(w, d) \<leftarrow> zip ws (take n vs). d * w)
        = (\<Sum>j = 0..<n. (case zip ws (take n vs) ! j of (w, d) \<Rightarrow> d * w))"
    using len by (simp add: sum_list_sum_nth)
  also have "\<dots> = (\<Sum>j = 0..<n. (vs ! j) * (ws ! j))"
    using assms by (intro sum.cong) auto
  finally show ?thesis .
qed

subsection \<open>The validator computes what the specification words\<close>

lemma verificationDigit_check:
  "verificationDigit sm = (let r = sm mod 11 in if r < 2 then 0 else 11 - r)"
  by (simp add: verificationDigit_def Let_def)

lemma sum_loop_check_digit:
  assumes len: "n \<le> length cnpj" and ws: "length weight = n"
    and dig: "\<forall>c \<in> set cnpj. is_digit c"
  shows "verificationDigit (sum_loop cnpj weight n 0 0)
         = check_digit weight (take n (map digit_value cnpj))"
proof -
  have "sum_loop cnpj weight n 0 0 = (\<Sum>j = 0..<n. digit (cnpj ! j) * (weight ! j))"
    by (simp add: sum_loop_eq)
  also have "\<dots> = (\<Sum>j = 0..<n. (map digit_value cnpj ! j) * (weight ! j))"
    using len dig by (intro sum.cong) (auto simp: digit_is_digit)
  also have "\<dots> = (\<Sum>(w, d) \<leftarrow> zip weight (take n (map digit_value cnpj)). d * w)"
    using len ws by (simp add: weighted_sum_nth)
  finally show ?thesis
    by (simp add: verificationDigit_check check_digit_def)
qed

lemma validateCNPJFormat_unfold:
  "validateCNPJFormat taxID =
     (let ds = strip_non_digits taxID in
      if length ds \<noteq> 14 then (False, msg_14_digits)
      else if all_digits_equal ds then (False, msg_all_equal)
      else if digit_value (ds ! 12) \<noteq> check_digit weight1 (take 12 (map digit_value ds))
        then (False, msg_first_digit)
      else if digit_value (ds ! 13) \<noteq> check_digit weight2 (take 13 (map digit_value ds))
        then (False, msg_second_digit)
      else (True, msg_valid))"
proof (cases "length (strip_non_digits taxID) = 14")
  case False
  then show ?thesis by (simp add: validateCNPJFormat_def Let_def)
next
  case True
  let ?ds = "strip_non_digits taxID"
  have dig: "\<forall>c \<in> set ?ds. is_digit c" by (simp add: strip_non_digits_def)
  have ne: "?ds \<noteq> []" using True by auto
  have d12: "digit (?ds ! 12) = digit_value (?ds ! 12)"
    using True dig by (simp add: digit_is_digit)
  have d13: "digit (?ds ! 13) = digit_value (?ds ! 13)"
    using True dig by (simp add: digit_is_digit)
  have c1: "verificationDigit (sum_loop ?ds weight1 12 0 0)
            = check_digit weight1 (take 12 (map digit_value ?ds))"
    using True dig by (intro sum_loop_check_digit) (simp_all add: weight1_def)
  have c2: "verificationDigit (sum_loop ?ds weight2 13 0 0)
            = check_digit weight2 (take 13 (map digit_value ?ds))"
    using True dig by (intro sum_loop_check_digit) (simp_all add: weight2_def)
  show ?thesis
    unfolding validateCNPJFormat_def Let_def
    by (simp only: allEqual_loop_all_digits_equal [OF ne] d12 d13 c1 c2)
qed

text \<open>
  Claim C3. On every input string the validator of the source computes what the
  specification words: it keeps the digit characters, answers invalid with the
  14-digits message unless exactly 14 remain, invalid with the all-equal message when
  they are all the same, invalid with the first-digit message unless digit 12 is the
  check digit of digits 0 to 11 under the weights 5,4,3,2,9,8,7,6,5,4,3,2, invalid with the
  second-digit message unless digit 13 is the check digit of digits 0 to 12 under the
  weights 6,5,4,3,2,9,8,7,6,5,4,3,2, and valid otherwise. Both are total functions of
  the string alone.
\<close>

theorem validateCNPJFormat_spec: "validateCNPJFormat taxID = spec_validate taxID"
proof -
  let ?ds = "strip_non_digits taxID"
  have "length ?ds = 14 \<Longrightarrow> map digit_value ?ds ! 12 = digit_value (?ds ! 12)"
    by simp
  moreover have "length ?ds = 14 \<Longrightarrow> map digit_value ?ds ! 13 = digit_value (?ds ! 13)"
    by simp
  ultimately show ?thesis
    unfolding validateCNPJFormat_unfold spec_validate_def Let_def
    by (simp add: strip_non_digits_def weight1_def weight2_def)
qed

theorem validateCNPJFormat_spec_witness:
  "validateCNPJFormat ''11.222.333/0001-81'' = (True, msg_valid)
   \<and> validateCNPJFormat ''11.222.333/0001-82'' = (False, msg_second_digit)
   \<and> validateCNPJFormat ''11.222.333/0001-71'' = (False, msg_first_digit)
   \<and> validateCNPJFormat ''22.222.222/2222-22'' = (False, msg_all_equal)
   \<and> validateCNPJFormat ''11.222.333/0001'' = (False, msg_14_digits)"
  unfolding validateCNPJFormat_spec
  by (simp add: spec_validate_def is_digit_def digit_value_def check_digit_def
      all_digits_equal_def)

subsection \<open>Changing a check digit\<close>

lemma validateCNPJFormat_valid_iff:
  "fst (validateCNPJFormat taxID) \<longleftrightarrow>
     (let ds = strip_non_digits taxID in
      length ds = 14 \<and> \<not> all_digits_equal ds
      \<and> digit_value (ds ! 12) = check_digit weight1 (take 12 (map digit_value ds))
      \<and> digit_value (ds ! 13) = check_digit weight2 (take 13 (map digit_value ds)))"
  unfolding validateCNPJFormat_unfold Let_def by simp

text \<open>
  Claim C4. If the validator accepts a tax ID, then every tax ID whose digits are the
  same except that digit 12 or digit 13 is replaced by a different digit is rejected.
\<close>

theorem check_digit_mutation_rejected:
  assumes valid: "fst (validateCNPJFormat taxID)"
    and k: "k = 12 \<or> k = 13"
    and c: "is_digit c" "c \<noteq> strip_non_digits taxID ! k"
    and mut: "strip_non_digits taxID' = (strip_non_digits taxID)[k := c]"
  shows "\<not> fst (validateCNPJFormat taxID')"
proof -
  let ?ds = "strip_non_digits taxID" and ?ds' = "strip_non_digits taxID'"
  from valid have len: "length ?ds = 14"
    and c1: "digit_value (?ds ! 12) = check_digit weight1 (take 12 (map digit_value ?ds))"
    and c2: "digit_value (?ds ! 13) = check_digit weight2 (take 13 (map digit_value ?ds))"
    by (simp_all add: validateCNPJFormat_valid_iff Let_def)
  from k show ?thesis
  proof
    assume k12: "k = 12"
    have "take 12 (map digit_value ?ds') = take 12 (map digit_value ?ds)"
      by (simp add: mut k12 map_update)
    moreover have "digit_value (?ds' ! 12) \<noteq> digit_value (?ds ! 12)"
      using c(2) len by (simp add: mut k12 digit_value_def)
    ultimately show ?thesis
      using c1 by (simp add: validateCNPJFormat_valid_iff Let_def)
  next
    assume k13: "k = 13"
    have "take 13 (map digit_value ?ds') = take 13 (map digit_value ?ds)"
      by (simp add: mut k13 map_update)
    moreover have "digit_value (?ds' ! 13) \<noteq> digit_value (?ds ! 13)"
      using c(2) len by (simp add: mut k13 digit_value_def)
    ultimately show ?thesis
      using c2 by (simp add: validateCNPJFormat_valid_iff Let_def)
  qed
qed

lemma valid_example: "fst (validateCNPJFormat ''11.222.333/0001-81'')"
  unfolding validateCNPJFormat_unfold
  by (simp add: strip_non_digits_def is_digit_def digit_value_def check_digit_def
      all_digits_equal_def weight1_def weight2_def)

theorem check_digit_mutation_rejected_witness:
  "fst (validateCNPJFormat ''11.222.333/0001-81'')
   \<and> \<not> fst (validateCNPJFormat ''11.222.333/0001-71'')
   \<and> \<not> fst (validateCNPJFormat ''11222333000189'')"
proof -
  have v: "fst (validateCNPJFormat ''11.222.333/0001-81'')" by (rule valid_example)
  have a: "\<not> fst (validateCNPJFormat ''11.222.333/0001-71'')"
    by (rule check_digit_mutation_rejected [OF v, of 12 "CHR ''7''"])
       (simp_all add: strip_non_digits_def is_digit_def)
  have b: "\<not> fst (validateCNPJFormat ''11222333000189'')"
    by (rule check_digit_mutation_rejected [OF v, of 13 "CHR ''9''"])
       (simp_all add: strip_non_digits_def is_digit_def)
  from v a b show ?thesis by simp
qed

subsection \<open>One admission call\<close>

lemma validRequests_loop_filter:
  "validRequests_loop ts validTime acc = acc @ filter (\<lambda>t. validTime < t) ts"
  by (induction ts arbitrary: acc) auto

lemma RateLimit_disabled:
  "\<not> enabled rl \<Longrightarrow> RateLimit rl ip now =
     (rl, \<lparr>passed = True, abort_status = None, X_RateLimit_Limit = None,
           X_RateLimit_Remaining = None, X_RateLimit_Reset = None\<rparr>)"
  by (simp add: RateLimit_def)

lemma int64_neg:
  "- 9223372036854775808 < W \<Longrightarrow> W < 9223372036854775808 \<Longrightarrow> int64 (- W) = - W"
  by (simp add: int64_def)

lemma int64_neg_min: "int64 9223372036854775808 = - 9223372036854775808"
  by (simp add: int64_def)

lemma RateLimit_enabled_raw:
  assumes "enabled rl"
  shows "RateLimit rl ip now =
    (let validTime = now + int64 (- windowLength rl);
         retained = filter (\<lambda>t. validTime < t) (limits_of (ipLimits rl) ip) in
     if maxRequests rl \<le> int (length retained) then
       (rl\<lparr>ipLimits := (ipLimits rl)(ip \<mapsto> retained)\<rparr>,
        \<lparr>passed = False, abort_status = Some 429,
         X_RateLimit_Limit = Some (maxRequests rl),
         X_RateLimit_Remaining = Some 0,
         X_RateLimit_Reset = Some (Unix (validTime + windowLength rl))\<rparr>)
     else
       (rl\<lparr>ipLimits := (ipLimits rl)(ip \<mapsto> retained @ [now])\<rparr>,
        \<lparr>passed = True, abort_status = None,
         X_RateLimit_Limit = Some (maxRequests rl),
         X_RateLimit_Remaining = Some (maxRequests rl - (int (length retained) + 1)),
         X_RateLimit_Reset = None\<rparr>))"
proof (cases "ipLimits rl ip")
  case None
  with assms show ?thesis
    unfolding RateLimit_def limits_of_def Let_def
    by simp
next
  case (Some ts)
  with assms show ?thesis
    unfolding RateLimit_def limits_of_def Let_def
    by (simp add: validRequests_loop_filter)
qed

text \<open>For every window but the smallest duration the negation is exact.\<close>

lemma RateLimit_enabled:
  assumes "enabled rl"
    and "- 9223372036854775808 < windowLength rl" and "windowLength rl < 9223372036854775808"
  shows "RateLimit rl ip now =
    (let retained = filter (\<lambda>t. now - windowLength rl < t) (limits_of (ipLimits rl) ip) in
     if maxRequests rl \<le> int (length retained) then
       (rl\<lparr>ipLimits := (ipLimits rl)(ip \<mapsto> retained)\<rparr>,
        \<lparr>passed = False, abort_status = Some 429,
         X_RateLimit_Limit = Some (maxRequests rl),
         X_RateLimit_Remaining = Some 0,
         X_RateLimit_Reset = Some (Unix now)\<rparr>)
     else
       (rl\<lparr>ipLimits := (ipLimits rl)(ip \<mapsto> retained @ [now])\<rparr>,
        \<lparr>passed = True, abort_status = None,
         X_RateLimit_Limit = Some (maxRequests rl),
         X_RateLimit_Remaining = Some (maxRequests rl - (int (length retained) + 1)),
         X_RateLimit_Reset = None\<rparr>))"
proof -
  have "now + int64 (- windowLength rl) = now - windowLength rl"
    using assms(2,3) by (simp add: int64_neg)
  then show ?thesis
    unfolding RateLimit_enabled_raw [OF assms(1)] Let_def by simp
qed

lemma RateLimit_config:
  "enabled (fst (RateLimit rl ip now)) = enabled rl
   \<and> maxRequests (fst (RateLimit rl ip now)) = maxRequests rl
   \<and> windowLength (fst (RateLimit rl ip now)) = windowLength rl"
proof (cases "enabled rl")
  case True
  then show ?thesis by (simp add: RateLimit_enabled_raw Let_def)
next
  case False
  then show ?thesis by (simp add: RateLimit_disabled)
qed

lemma admit_all_config:
  "enabled (admit_all rl calls) = enabled rl
   \<and> maxRequests (admit_all rl calls) = maxRequests rl
   \<and> windowLength (admit_all rl calls) = windowLength rl"
  unfolding admit_all_def
proof (induction calls arbitrary: rl)
  case Nil
  show ?case by simp
next
  case (Cons call calls)
  obtain ip now where call: "call = (ip, now)" by (cases call)
  show ?case
    using Cons [of "fst (RateLimit rl ip now)"] RateLimit_config [of rl ip now]
    by (simp add: call)
qed

lemma admit_all_New:
  "enabled (admit_all (NewRateLimiter N W) calls)"
  "maxRequests (admit_all (NewRateLimiter N W) calls) = N"
  "windowLength (admit_all (NewRateLimiter N W) calls) = W"
  by (simp_all add: admit_all_config NewRateLimiter_def)

lemma limits_of_upd: "limits_of (m(ip \<mapsto> ts)) ip = ts"
  by (simp add: limits_of_def)

subsection \<open>Three calls, a fourth, and a fifth after the window\<close>

lemma three_then_denied:
  fixes W :: int
  assumes wr: "- 9223372036854775808 < W" "W < 9223372036854775808"
    and ord: "t1 \<le> t2" "t2 \<le> t3" "t3 \<le> t4" and inside: "t4 < t1 + W"
    and after: "t1 + W \<le> t5"
  shows "map passed (admit_responses (NewRateLimiter 3 W)
           [(ip, t1), (ip, t2), (ip, t3), (ip, t4), (ip, t5)])
         = [True, True, True, False, True]"
    and "X_RateLimit_Remaining (admit_responses (NewRateLimiter 3 W)
           [(ip, t1), (ip, t2), (ip, t3), (ip, t4), (ip, t5)] ! 3) = Some 0"
proof -
  define rl0 where "rl0 = NewRateLimiter 3 W"
  define rl1 where "rl1 = fst (RateLimit rl0 ip t1)"
  define rl2 where "rl2 = fst (RateLimit rl1 ip t2)"
  define rl3 where "rl3 = fst (RateLimit rl2 ip t3)"
  define rl4 where "rl4 = fst (RateLimit rl3 ip t4)"
  have c0: "enabled rl0" "maxRequests rl0 = 3" "windowLength rl0 = W"
    and l0: "limits_of (ipLimits rl0) ip = []"
    by (simp_all add: rl0_def NewRateLimiter_def limits_of_def)
  have c1: "enabled rl1" "maxRequests rl1 = 3" "windowLength rl1 = W"
    using c0 by (simp_all add: rl1_def RateLimit_config)
  have c2: "enabled rl2" "maxRequests rl2 = 3" "windowLength rl2 = W"
    using c1 by (simp_all add: rl2_def RateLimit_config)
  have c3: "enabled rl3" "maxRequests rl3 = 3" "windowLength rl3 = W"
    using c2 by (simp_all add: rl3_def RateLimit_config)
  have c4: "enabled rl4" "maxRequests rl4 = 3" "windowLength rl4 = W"
    using c3 by (simp_all add: rl4_def RateLimit_config)
  have p1: "passed (snd (RateLimit rl0 ip t1))"
    and l1: "limits_of (ipLimits rl1) ip = [t1]"
    using c0 l0 wr by (simp_all add: rl1_def RateLimit_enabled Let_def limits_of_upd)
  have p2: "passed (snd (RateLimit rl1 ip t2))"
    and l2: "limits_of (ipLimits rl2) ip = [t1, t2]"
    using c1 l1 ord inside wr
    by (simp_all add: rl2_def RateLimit_enabled Let_def limits_of_upd)
  have p3: "passed (snd (RateLimit rl2 ip t3))"
    and l3: "limits_of (ipLimits rl3) ip = [t1, t2, t3]"
    using c2 l2 ord inside wr
    by (simp_all add: rl3_def RateLimit_enabled Let_def limits_of_upd)
  have p4: "\<not> passed (snd (RateLimit rl3 ip t4))"
    and r4: "X_RateLimit_Remaining (snd (RateLimit rl3 ip t4)) = Some 0"
    and l4: "limits_of (ipLimits rl4) ip = [t1, t2, t3]"
    using c3 l3 ord inside wr
    by (simp_all add: rl4_def RateLimit_enabled Let_def limits_of_upd)
  have "length (filter (\<lambda>t. t5 - W < t) [t2, t3]) \<le> 2"
    by simp
  then have "\<not> 3 \<le> int (length (filter (\<lambda>t. t5 - W < t) [t1, t2, t3]))"
    using after by simp
  then have p5: "passed (snd (RateLimit rl4 ip t5))"
    using c4 l4 wr by (simp add: RateLimit_enabled Let_def)
  show "map passed (admit_responses (NewRateLimiter 3 W)
           [(ip, t1), (ip, t2), (ip, t3), (ip, t4), (ip, t5)])
         = [True, True, True, False, True]"
    using p1 p2 p3 p4 p5
    by (simp add: rl0_def [symmetric] rl1_def [symmetric] rl2_def [symmetric]
        rl3_def [symmetric] rl4_def [symmetric])
  show "X_RateLimit_Remaining (admit_responses (NewRateLimiter 3 W)
           [(ip, t1), (ip, t2), (ip, t3), (ip, t4), (ip, t5)] ! 3) = Some 0"
    using r4
    by (simp add: rl0_def [symmetric] rl1_def [symmetric] rl2_def [symmetric]
        rl3_def [symmetric] rl4_def [symmetric])
qed

subsection \<open>The sliding window\<close>

text \<open>
  Claim C5. For a limiter built by \<open>NewRateLimiter N W\<close>, where the window \<open>W\<close> is any
  duration but the smallest one (\<open>- 2^63\<close> nanoseconds, the one duration whose negation
  wraps), and any sequence of earlier admission calls, a call of caller \<open>ip\<close> at
  instant \<open>now\<close> keeps of that caller's
  timestamps those later than \<open>now - W\<close>; if at least \<open>N\<close> are kept it rejects with
  remaining 0 and stores the kept ones, otherwise it stores the kept ones followed by
  \<open>now\<close> and admits with remaining \<open>N\<close> minus the new count; other callers are
  untouched. With \<open>N = 3\<close> and \<open>W\<close> = 60 s, three calls and a fourth inside the
  window of the first are admitted, admitted, admitted and rejected with remaining 0,
  and a call once the window of the first has elapsed is admitted.
\<close>

theorem RateLimit_sliding_window:
  "(- 9223372036854775808 < W \<and> W < 9223372036854775808 \<longrightarrow>
    (let rl = admit_all (NewRateLimiter N W) calls;
        retained = filter (\<lambda>t. \<not> t \<le> now - W) (limits_of (ipLimits rl) ip);
        r = RateLimit rl ip now
    in if N \<le> int (length retained)
       then ipLimits (fst r) = (ipLimits rl)(ip \<mapsto> retained)
            \<and> \<not> passed (snd r) \<and> abort_status (snd r) = Some 429
            \<and> X_RateLimit_Remaining (snd r) = Some 0
       else ipLimits (fst r) = (ipLimits rl)(ip \<mapsto> retained @ [now])
            \<and> passed (snd r) \<and> abort_status (snd r) = None
            \<and> X_RateLimit_Remaining (snd r) = Some (N - int (length (retained @ [now])))))
   \<and> (t1 \<le> t2 \<and> t2 \<le> t3 \<and> t3 \<le> t4 \<and> t4 < t1 + 60000000000 \<and> t1 + 60000000000 \<le> t5 \<longrightarrow>
        map passed (admit_responses (NewRateLimiter 3 60000000000)
          [(ip', t1), (ip', t2), (ip', t3), (ip', t4), (ip', t5)])
          = [True, True, True, False, True]
        \<and> X_RateLimit_Remaining (admit_responses (NewRateLimiter 3 60000000000)
          [(ip', t1), (ip', t2), (ip', t3), (ip', t4), (ip', t5)] ! 3) = Some 0)"
proof (intro conjI impI)
  assume "- 9223372036854775808 < W \<and> W < 9223372036854775808"
  then have wr: "- 9223372036854775808 < W" "W < 9223372036854775808" by simp_all
  define rl where "rl = admit_all (NewRateLimiter N W) calls"
  have cfg: "enabled rl" "maxRequests rl = N" "windowLength rl = W"
    by (simp_all add: rl_def admit_all_New)
  have flt: "(\<lambda>t. \<not> t \<le> now - W) = (\<lambda>t. now - W < t)"
    by (simp add: fun_eq_iff not_le)
  show "let rl = admit_all (NewRateLimiter N W) calls;
        retained = filter (\<lambda>t. \<not> t \<le> now - W) (limits_of (ipLimits rl) ip);
        r = RateLimit rl ip now
    in if N \<le> int (length retained)
       then ipLimits (fst r) = (ipLimits rl)(ip \<mapsto> retained)
            \<and> \<not> passed (snd r) \<and> abort_status (snd r) = Some 429
            \<and> X_RateLimit_Remaining (snd r) = Some 0
       else ipLimits (fst r) = (ipLimits rl)(ip \<mapsto> retained @ [now])
            \<and> passed (snd r) \<and> abort_status (snd r) = None
            \<and> X_RateLimit_Remaining (snd r) = Some (N - int (length (retained @ [now])))"
    unfolding rl_def [symmetric] flt Let_def
    using cfg wr by (simp add: RateLimit_enabled Let_def)
next
  assume h: "t1 \<le> t2 \<and> t2 \<le> t3 \<and> t3 \<le> t4 \<and> t4 < t1 + 60000000000 \<and> t1 + 60000000000 \<le> t5"
  then show "map passed (admit_responses (NewRateLimiter 3 60000000000)
          [(ip', t1), (ip', t2), (ip', t3), (ip', t4), (ip', t5)])
          = [True, True, True, False, True]"
    by (intro three_then_denied(1)) simp_all
next
  assume h: "t1 \<le> t2 \<and> t2 \<le> t3 \<and> t3 \<le> t4 \<and> t4 < t1 + 60000000000 \<and> t1 + 60000000000 \<le> t5"
  then show "X_RateLimit_Remaining (admit_responses (NewRateLimiter 3 60000000000)
          [(ip', t1), (ip', t2), (ip', t3), (ip', t4), (ip', t5)] ! 3) = Some 0"
    by (intro three_then_denied(2)) simp_all
qed

theorem RateLimit_sliding_window_witness:
  "map passed (admit_responses (NewRateLimiter 3 60000000000)
     [(''10.0.0.1'', 0), (''10.0.0.1'', 10000000000), (''10.0.0.1'', 20000000000),
      (''10.0.0.1'', 30000000000), (''10.0.0.1'', 61000000000)])
   = [True, True, True, False, True]
   \<and> \<not> passed (snd (RateLimit (admit_all (NewRateLimiter 1 60000000000) [(''10.0.0.1'', 0)])
                     ''10.0.0.1'' 30000000000))"
proof -
  have l: "limits_of (ipLimits (admit_all (NewRateLimiter 1 60000000000) [(''10.0.0.1'', 0)]))
             ''10.0.0.1'' = [0]"
    by (simp add: admit_all_def RateLimit_def NewRateLimiter_def limits_of_def)
  show ?thesis
    using RateLimit_sliding_window [of 60000000000 1 "[(''10.0.0.1'', 0)]" 30000000000
        "''10.0.0.1''" 0 10000000000 20000000000 30000000000 61000000000 "''10.0.0.1''"]
    by (simp add: l Let_def)
qed

text \<open>
  At the smallest duration the negation wraps to the duration itself: the instant
  \<open>validTime\<close> lies in the far past, the earlier timestamp is kept and the second call
  is rejected, where a window of \<open>- 2^63\<close> nanoseconds read as a number would drop it.
\<close>

lemma RateLimit_smallest_window:
  "\<not> passed (snd (RateLimit
          (admit_all (NewRateLimiter 1 (- 9223372036854775808)) [(''10.0.0.1'', 0)])
          ''10.0.0.1'' 1))
   \<and> limits_of (ipLimits (fst (RateLimit
          (admit_all (NewRateLimiter 1 (- 9223372036854775808)) [(''10.0.0.1'', 0)])
          ''10.0.0.1'' 1))) ''10.0.0.1'' = [0]"
proof -
  define rl where
    "rl = admit_all (NewRateLimiter 1 (- 9223372036854775808)) [(''10.0.0.1'', 0)]"
  have cfg: "enabled rl" "maxRequests rl = 1" "windowLength rl = - 9223372036854775808"
    by (simp_all add: rl_def admit_all_New)
  have l: "limits_of (ipLimits rl) ''10.0.0.1'' = [0]"
    by (simp add: rl_def admit_all_def RateLimit_def NewRateLimiter_def limits_of_def)
  show ?thesis
    unfolding rl_def [symmetric]
    using cfg l by (simp add: RateLimit_enabled_raw Let_def limits_of_upd int64_neg_min)
qed

text \<open>
  Claim C6 says that a rejection reports the earliest retained timestamp plus the
  window. The source computes \<^verbatim>\<open>validTime.Add(rl.windowLength)\<close>, which is the
  instant of the call. With a limit of 1 and a window of 60 s, a caller admitted at
  0 s and rejected at 30 s retains the timestamp 0 and is told 30, not 60.
\<close>

theorem RateLimit_reset_is_now:
  "\<not> passed (snd (RateLimit (admit_all (NewRateLimiter 1 60000000000) [(''10.0.0.1'', 0)])
                   ''10.0.0.1'' 30000000000))
   \<and> limits_of (ipLimits (fst (RateLimit (admit_all (NewRateLimiter 1 60000000000)
         [(''10.0.0.1'', 0)]) ''10.0.0.1'' 30000000000))) ''10.0.0.1'' = [0]
   \<and> X_RateLimit_Reset (snd (RateLimit (admit_all (NewRateLimiter 1 60000000000)
         [(''10.0.0.1'', 0)]) ''10.0.0.1'' 30000000000)) = Some 30
   \<and> Unix (0 + 60000000000) = 60"
proof -
  define rl where "rl = admit_all (NewRateLimiter 1 60000000000) [(''10.0.0.1'', 0)]"
  have cfg: "enabled rl" "maxRequests rl = 1" "windowLength rl = 60000000000"
    by (simp_all add: rl_def admit_all_New)
  have l: "limits_of (ipLimits rl) ''10.0.0.1'' = [0]"
    by (simp add: rl_def admit_all_def RateLimit_def NewRateLimiter_def limits_of_def)
  show ?thesis
    unfolding rl_def [symmetric]
    using cfg l by (simp add: RateLimit_enabled Let_def limits_of_upd Unix_def)
qed

subsection \<open>Minted references\<close>

declare mockHash_loop.simps [simp del]

lemma mockHash_loop_eq:
  "0 \<le> i \<Longrightarrow> i \<le> n \<Longrightarrow>
   mockHash_loop charset rnd n i hash =
     hash @ map (\<lambda>k. charset ! (rnd k mod length charset)) [nat i..<nat n]"
proof (induction charset rnd n i hash rule: mockHash_loop.induct)
  case (1 charset rnd n i hash)
  show ?case
  proof (cases "i < n")
    case True
    have up: "[nat i..<nat n] = nat i # [nat (i + 1)..<nat n]"
      using True "1.prems" by (simp add: upt_conv_Cons nat_add_distrib)
    have "mockHash_loop charset rnd n i hash =
            mockHash_loop charset rnd n (i + 1)
              (hash @ [charset ! (rnd (nat i) mod length charset)])"
      using True by (subst mockHash_loop.simps) simp
    also have "\<dots> = (hash @ [charset ! (rnd (nat i) mod length charset)])
                 @ map (\<lambda>k. charset ! (rnd k mod length charset)) [nat (i + 1)..<nat n]"
      using True "1.prems" by (intro "1.IH") simp_all
    finally show ?thesis by (simp add: up)
  next
    case False
    with "1.prems" have "i = n" by simp
    then show ?thesis by (subst mockHash_loop.simps) simp
  qed
qed


lemma mockHash_loop_from_0:
  "0 \<le> n \<Longrightarrow> mockHash_loop charset rnd n 0 hash =
     hash @ map (\<lambda>k. charset ! (rnd k mod length charset)) [0..<nat n]"
  using mockHash_loop_eq [of 0 n charset rnd hash] by simp

lemma mockHash_loop_length:
  "0 \<le> n \<Longrightarrow> length (mockHash_loop charset rnd n 0 hash) = length hash + nat n"
  by (simp add: mockHash_loop_from_0)

lemma mockHash_loop_take:
  "0 \<le> n \<Longrightarrow> take (length hash) (mockHash_loop charset rnd n 0 hash) = hash"
  by (simp only: mockHash_loop_from_0) simp

lemma mockHash_loop_drop:
  "0 \<le> n \<Longrightarrow> drop (length hash) (mockHash_loop charset rnd n 0 hash) =
     map (\<lambda>k. charset ! (rnd k mod length charset)) [0..<nat n]"
  by (simp only: mockHash_loop_from_0) simp

lemma mockHash_loop_all:
  assumes "0 \<le> n" and "charset \<noteq> []" and "list_all P charset"
  shows "list_all P (drop (length hash) (mockHash_loop charset rnd n 0 hash))"
proof -
  have "\<And>k. charset ! (rnd k mod length charset) \<in> set charset"
    using assms(2) by simp
  then have "\<And>k. P (charset ! (rnd k mod length charset))"
    using assms(3) by (simp add: list_all_iff)
  then show ?thesis
    by (simp only: mockHash_loop_drop [OF assms(1)]) (simp add: list_all_iff)
qed


lemma generateMockTransactionHash_verifies:
  "verifyBlockchainReference (generateMockTransactionHash rnd)"
proof -
  let ?h = "generateMockTransactionHash rnd"
  have len: "length ?h = 66"
    unfolding generateMockTransactionHash_def by (simp add: mockHash_loop_length)
  have tk: "take 2 ?h = ''0x''"
    unfolding generateMockTransactionHash_def
    using mockHash_loop_take [of 64 "''0x''" "''abcdef0123456789''" rnd]
    by (simp add: numeral_2_eq_2)
  have "list_all is_hex ''abcdef0123456789''"
    by (simp add: is_hex_def)
  then have hex: "list_all is_hex (drop 2 ?h)"
    unfolding generateMockTransactionHash_def
    using mockHash_loop_all [of 64 "''abcdef0123456789''" is_hex "''0x''" rnd]
    by (simp add: numeral_2_eq_2)
  have ne: "?h \<noteq> []" using len by auto
  show ?thesis
    using len tk hex ne
    by (simp add: verifyBlockchainReference_def hexPattern_MatchString_def)
qed

lemma generateMockTransactionHash_nonempty: "generateMockTransactionHash rnd \<noteq> []"
  using generateMockTransactionHash_verifies [of rnd]
  by (auto simp: verifyBlockchainReference_def)

lemma mock_ipfs_verifies: "verifyIPFSReference (''Qm'' @ generateMockHash 46 rnd)"
  by (simp add: verifyIPFSReference_def generateMockHash_def mockHash_loop_length)

subsection \<open>The workflow operations, case by case\<close>

lemma findRegistration_Some:
  "findRegistration regs rid k = Some (i, reg) \<Longrightarrow>
     k \<le> i \<and> i - k < length regs \<and> regs ! (i - k) = reg \<and> reg_ID reg = rid"
proof (induction regs arbitrary: k)
  case Nil
  then show ?case by simp
next
  case (Cons r regs)
  show ?case
  proof (cases "reg_ID r = rid")
    case True
    with Cons.prems show ?thesis by auto
  next
    case False
    with Cons.prems have "findRegistration regs rid (k + 1) = Some (i, reg)" by simp
    from Cons.IH [OF this]
    have ih: "k + 1 \<le> i" "i - (k + 1) < length regs" "regs ! (i - (k + 1)) = reg"
      "reg_ID reg = rid"
      by simp_all
    from ih(1) have "i - k = Suc (i - (k + 1))" by arith
    with ih show ?thesis by simp
  qed
qed

lemma findRegistration_0:
  "findRegistration regs rid 0 = Some (i, reg) \<Longrightarrow>
     i < length regs \<and> regs ! i = reg \<and> reg_ID reg = rid"
  using findRegistration_Some [of regs rid 0 i reg] by simp


lemma ApproveNGO_absent:
  "findRegistration (ngoRegistrations s) rid 0 = None \<Longrightarrow>
     ApproveNGO s rid adminID comments rnd clock = Inl ErrRegistrationNotFound"
  by (simp add: ApproveNGO_def)

lemma ApproveNGO_not_valid:
  "findRegistration (ngoRegistrations s) rid 0 = Some (i, reg) \<Longrightarrow> \<not> reg_CNPJValid reg \<Longrightarrow>
     ApproveNGO s rid adminID comments rnd clock = Inl ErrCNPJNotValidated"
  by (simp add: ApproveNGO_def)

lemma ApproveNGO_no_documents:
  "findRegistration (ngoRegistrations s) rid 0 = Some (i, reg) \<Longrightarrow> reg_CNPJValid reg \<Longrightarrow>
     reg_DocumentsIPFS reg = [] \<Longrightarrow>
     ApproveNGO s rid adminID comments rnd clock = Inl ErrDocumentsNotSent"
  by (simp add: ApproveNGO_def)

lemma ApproveNGO_success:
  assumes f: "findRegistration (ngoRegistrations s) rid 0 = Some (i, reg)"
    and v: "reg_CNPJValid reg" and d: "reg_DocumentsIPFS reg \<noteq> []"
  shows "ApproveNGO s rid adminID comments rnd clock =
     Inr (s\<lparr>ngoRegistrations := (ngoRegistrations s)
               [i := reg\<lparr>reg_BlockchainRef := generateMockTransactionHash rnd,
                         reg_Status := NGOStatusApproved,
                         reg_AdminComments := comments,
                         reg_UpdatedAt := clock 1\<rparr>],
             ngos := ngos s @
               [\<lparr>ngo_ID = length (ngos s) + 1, ngo_Name = reg_Name reg,
                 ngo_Description = reg_Description reg, ngo_Category = reg_Category reg,
                 ngo_CNPJ = reg_CNPJ reg, ngo_Email = reg_Email reg,
                 ngo_Phone = reg_Phone reg, ngo_Address = reg_Address reg,
                 ngo_LogoURL = reg_LogoURL reg,
                 ngo_DocumentsIPFS = reg_DocumentsIPFS reg,
                 ngo_BlockchainRef = generateMockTransactionHash rnd,
                 ngo_ResponsibleID = reg_ResponsibleID reg,
                 ngo_CreatedAt = clock 2, ngo_UpdatedAt = clock 3\<rparr>],
             donationService := (donationService s)
               \<lparr>ds_ngos := ds_ngos (donationService s) @
                 [\<lparr>ngo_ID = length (ngos s) + 1, ngo_Name = reg_Name reg,
                   ngo_Description = reg_Description reg, ngo_Category = reg_Category reg,
                   ngo_CNPJ = reg_CNPJ reg, ngo_Email = reg_Email reg,
                   ngo_Phone = reg_Phone reg, ngo_Address = reg_Address reg,
                   ngo_LogoURL = reg_LogoURL reg,
                   ngo_DocumentsIPFS = reg_DocumentsIPFS reg,
                   ngo_BlockchainRef = generateMockTransactionHash rnd,
                   ngo_ResponsibleID = reg_ResponsibleID reg,
                   ngo_CreatedAt = clock 2, ngo_UpdatedAt = clock 3\<rparr>]\<rparr>,
             auditLogs := auditLogs s @
               [\<lparr>log_ID = length (auditLogs s) + 1, log_AdminID = adminID,
                 log_Action = ''ngo_approved'', log_EntityType = ''ngo'',
                 log_EntityID = length (ngos s) + 1,
                 log_PreviousState = ''validando'', log_NewState = ''aprovado'',
                 log_Comments = ''aprovado'', log_BlockchainValid = False,
                 log_IPFSValid = False, log_ValidationErrors = [],
                 log_CreatedAt = clock 4\<rparr>]\<rparr>,
          \<lparr>ngo_ID = length (ngos s) + 1, ngo_Name = reg_Name reg,
           ngo_Description = reg_Description reg, ngo_Category = reg_Category reg,
           ngo_CNPJ = reg_CNPJ reg, ngo_Email = reg_Email reg,
           ngo_Phone = reg_Phone reg, ngo_Address = reg_Address reg,
           ngo_LogoURL = reg_LogoURL reg,
           ngo_DocumentsIPFS = reg_DocumentsIPFS reg,
           ngo_BlockchainRef = generateMockTransactionHash rnd,
           ngo_ResponsibleID = reg_ResponsibleID reg,
           ngo_CreatedAt = clock 2, ngo_UpdatedAt = clock 3\<rparr>)"
proof -
  have at: "ngoRegistrations s ! i = reg" using findRegistration_0 [OF f] by simp
  show ?thesis
    using f v d
    by (simp add: ApproveNGO_def Let_def logAuditAction_def at)
qed

lemma RejectNGO_absent:
  "findRegistration (ngoRegistrations s) rid 0 = None \<Longrightarrow>
     RejectNGO s rid adminID reason clock = Inl ErrRegistrationNotFound"
  by (simp add: RejectNGO_def)

lemma RejectNGO_success:
  assumes f: "findRegistration (ngoRegistrations s) rid 0 = Some (i, reg)"
  shows "RejectNGO s rid adminID reason clock =
     Inr (s\<lparr>ngoRegistrations := (ngoRegistrations s)
               [i := reg\<lparr>reg_Status := NGOStatusRejected,
                         reg_AdminComments := reason,
                         reg_UpdatedAt := clock 0\<rparr>],
             auditLogs := auditLogs s @
               [\<lparr>log_ID = length (auditLogs s) + 1, log_AdminID = adminID,
                 log_Action = ''ngo_rejected'', log_EntityType = ''ngo_registration'',
                 log_EntityID = rid,
                 log_PreviousState = status_string (reg_Status reg),
                 log_NewState = ''rejeitado'',
                 log_Comments = ''rejeitado'', log_BlockchainValid = False,
                 log_IPFSValid = False, log_ValidationErrors = [],
                 log_CreatedAt = clock 1\<rparr>]\<rparr>,
          reg\<lparr>reg_Status := NGOStatusRejected,
              reg_AdminComments := reason,
              reg_UpdatedAt := clock 0\<rparr>)"
proof -
  have at: "i < length (ngoRegistrations s)" "ngoRegistrations s ! i = reg"
    using findRegistration_0 [OF f] by simp_all
  show ?thesis
    using f at by (simp add: RejectNGO_def Let_def logAuditAction_def)
qed

lemma ValidateCNPJOnline_absent:
  "findRegistration (ngoRegistrations s) rid 0 = None \<Longrightarrow>
     ValidateCNPJOnline s rid clock = Inl ErrRegistrationNotFound"
  by (simp add: ValidateCNPJOnline_def)

lemma ValidateCNPJOnline_invalid:
  "findRegistration (ngoRegistrations s) rid 0 = Some (i, reg) \<Longrightarrow> \<not> reg_CNPJValid reg \<Longrightarrow>
     ValidateCNPJOnline s rid clock = Inl (ErrCNPJInvalid (reg_CNPJValidationMsg reg))"
  by (simp add: ValidateCNPJOnline_def)

lemma ValidateCNPJOnline_success:
  assumes f: "findRegistration (ngoRegistrations s) rid 0 = Some (i, reg)"
    and v: "reg_CNPJValid reg"
  shows "ValidateCNPJOnline s rid clock =
     Inr (s\<lparr>ngoRegistrations := (ngoRegistrations s)
               [i := reg\<lparr>reg_CNPJValid := True,
                         reg_CNPJValidationMsg := msg_verified_online,
                         reg_Status := NGOStatusValidating,
                         reg_UpdatedAt := clock 0\<rparr>],
             auditLogs := auditLogs s @
               [\<lparr>log_ID = length (auditLogs s) + 1, log_AdminID = 0,
                 log_Action = ''cnpj_validated'', log_EntityType = ''ngo_registration'',
                 log_EntityID = rid,
                 log_PreviousState = status_string (reg_Status reg),
                 log_NewState = ''validando'',
                 log_Comments = ''validando'', log_BlockchainValid = False,
                 log_IPFSValid = False, log_ValidationErrors = [],
                 log_CreatedAt = clock 1\<rparr>]\<rparr>,
          reg\<lparr>reg_CNPJValid := True,
              reg_CNPJValidationMsg := msg_verified_online,
              reg_Status := NGOStatusValidating,
              reg_UpdatedAt := clock 0\<rparr>)"
proof -
  have at: "i < length (ngoRegistrations s)" "ngoRegistrations s ! i = reg"
    using findRegistration_0 [OF f] by simp_all
  show ?thesis
    using f v at by (simp add: ValidateCNPJOnline_def Let_def logAuditAction_def)
qed

lemma UploadNGODocuments_absent:
  "findRegistration (ngoRegistrations s) rid 0 = None \<Longrightarrow>
     UploadNGODocuments s rid content rnd clock = Inl ErrRegistrationNotFound"
  by (simp add: UploadNGODocuments_def)

lemma UploadNGODocuments_invalid:
  "findRegistration (ngoRegistrations s) rid 0 = Some (i, reg) \<Longrightarrow> \<not> reg_CNPJValid reg \<Longrightarrow>
     UploadNGODocuments s rid content rnd clock = Inl ErrCNPJNotValidatedUpload"
  by (simp add: UploadNGODocuments_def)

lemma UploadNGODocuments_success:
  assumes f: "findRegistration (ngoRegistrations s) rid 0 = Some (i, reg)"
    and v: "reg_CNPJValid reg"
  shows "UploadNGODocuments s rid content rnd clock =
     Inr (s\<lparr>ngoRegistrations := (ngoRegistrations s)
               [i := reg\<lparr>reg_DocumentsIPFS := ''Qm'' @ generateMockHash 46 rnd,
                         reg_UpdatedAt := clock 1\<rparr>],
             auditLogs := auditLogs s @
               [\<lparr>log_ID = length (auditLogs s) + 1, log_AdminID = 0,
                 log_Action = ''documents_uploaded'', log_EntityType = ''ngo_registration'',
                 log_EntityID = rid,
                 log_PreviousState = [],
                 log_NewState = ''Documentos enviados para IPFS: '' @ ''Qm'' @ generateMockHash 46 rnd,
                 log_Comments = ''Documentos enviados para IPFS: '' @ ''Qm'' @ generateMockHash 46 rnd,
                 log_BlockchainValid = False,
                 log_IPFSValid = False, log_ValidationErrors = [],
                 log_CreatedAt = clock 2\<rparr>]\<rparr>,
          reg\<lparr>reg_DocumentsIPFS := ''Qm'' @ generateMockHash 46 rnd,
              reg_UpdatedAt := clock 1\<rparr>)"
proof -
  have at: "i < length (ngoRegistrations s)" "ngoRegistrations s ! i = reg"
    using findRegistration_0 [OF f] by simp_all
  show ?thesis
    using f v at by (simp add: UploadNGODocuments_def Let_def logAuditAction_def)
qed

lemma RegisterNGO_registered:
  "\<exists>reg \<in> set (ngoRegistrations s). reg_CNPJ reg = req_CNPJ req \<Longrightarrow>
     RegisterNGO s req clock = Inl ErrCNPJRegistered"
  by (auto simp: RegisterNGO_def find_None_iff)

lemma RegisterNGO_active:
  "\<forall>reg \<in> set (ngoRegistrations s). reg_CNPJ reg \<noteq> req_CNPJ req \<Longrightarrow>
   \<exists>ngo \<in> set (ngos s). ngo_CNPJ ngo = req_CNPJ req \<Longrightarrow>
     RegisterNGO s req clock = Inl ErrCNPJActiveNGO"
  by (auto simp: RegisterNGO_def find_None_iff)

lemma RegisterNGO_success:
  assumes "\<forall>reg \<in> set (ngoRegistrations s). reg_CNPJ reg \<noteq> req_CNPJ req"
    and "\<forall>ngo \<in> set (ngos s). ngo_CNPJ ngo \<noteq> req_CNPJ req"
  shows "RegisterNGO s req clock =
     Inr (s\<lparr>ngoRegistrations := ngoRegistrations s @
               [\<lparr>reg_ID = length (ngoRegistrations s) + 1, reg_Name = req_Name req,
                 reg_Description = req_Description req, reg_Category = req_Category req,
                 reg_CNPJ = req_CNPJ req,
                 reg_CNPJValid = fst (validateCNPJFormat (req_CNPJ req)),
                 reg_CNPJValidationMsg = snd (validateCNPJFormat (req_CNPJ req)),
                 reg_Email = req_Email req,
                 reg_Phone = req_Phone req, reg_Address = req_Address req,
                 reg_ResponsibleID = req_ResponsibleID req, reg_LogoURL = req_LogoURL req,
                 reg_DocumentsIPFS = [], reg_BlockchainRef = [],
                 reg_Status = NGOStatusPending, reg_AdminComments = [],
                 reg_CreatedAt = clock 0, reg_UpdatedAt = clock 1\<rparr>],
             auditLogs := auditLogs s @
               [\<lparr>log_ID = length (auditLogs s) + 1, log_AdminID = 0,
                 log_Action = ''ngo_registration_created'',
                 log_EntityType = ''ngo_registration'',
                 log_EntityID = length (ngoRegistrations s) + 1,
                 log_PreviousState = [],
                 log_NewState = ''Registro de ONG solicitado: '' @ req_Name req
                    @ '' (CNPJ: '' @ req_CNPJ req @ '')'',
                 log_Comments = ''Registro de ONG solicitado: '' @ req_Name req
                    @ '' (CNPJ: '' @ req_CNPJ req @ '')'',
                 log_BlockchainValid = False,
                 log_IPFSValid = False, log_ValidationErrors = [],
                 log_CreatedAt = clock 2\<rparr>]\<rparr>,
          \<lparr>reg_ID = length (ngoRegistrations s) + 1, reg_Name = req_Name req,
           reg_Description = req_Description req, reg_Category = req_Category req,
           reg_CNPJ = req_CNPJ req,
           reg_CNPJValid = fst (validateCNPJFormat (req_CNPJ req)),
           reg_CNPJValidationMsg = snd (validateCNPJFormat (req_CNPJ req)),
           reg_Email = req_Email req,
           reg_Phone = req_Phone req, reg_Address = req_Address req,
           reg_ResponsibleID = req_ResponsibleID req, reg_LogoURL = req_LogoURL req,
           reg_DocumentsIPFS = [], reg_BlockchainRef = [],
           reg_Status = NGOStatusPending, reg_AdminComments = [],
           reg_CreatedAt = clock 0, reg_UpdatedAt = clock 1\<rparr>)"
proof -
  have a: "find (\<lambda>reg. reg_CNPJ reg = req_CNPJ req) (ngoRegistrations s) = None"
    using assms(1) by (simp add: find_None_iff)
  have b: "find (\<lambda>ngo. ngo_CNPJ ngo = req_CNPJ req) (ngos s) = None"
    using assms(2) by (simp add: find_None_iff)
  show ?thesis
    unfolding RegisterNGO_def
    by (simp add: a b Let_def logAuditAction_def split_beta)
qed

subsection \<open>The example registration\<close>

lemma example_valid: "validateCNPJFormat ''11.222.333/0001-81'' = (True, msg_valid)"
  unfolding validateCNPJFormat_unfold
  by (simp add: strip_non_digits_def is_digit_def digit_value_def check_digit_def
      all_digits_equal_def weight1_def weight2_def)

lemma example_uploaded_regs:
  "ngoRegistrations example_uploaded =
     [\<lparr>reg_ID = 1, reg_Name = ''Casa Azul'', reg_Description = ''Abrigo'',
       reg_Category = ''Outros'', reg_CNPJ = ''11.222.333/0001-81'',
       reg_CNPJValid = True, reg_CNPJValidationMsg = msg_verified_online,
       reg_Email = ''casa@example.org'', reg_Phone = ''5511999990000'',
       reg_Address = ''Rua A, 1'', reg_ResponsibleID = 5, reg_LogoURL = [],
       reg_DocumentsIPFS = ''Qm'' @ generateMockHash 46 zero_rnd, reg_BlockchainRef = [],
       reg_Status = NGOStatusValidating, reg_AdminComments = [],
       reg_CreatedAt = 0, reg_UpdatedAt = 0\<rparr>]"
  by (simp add: example_uploaded_def run_def empty_service_def NewAdminService_def
      state_after_def RegisterNGO_success example_request_def example_valid
      ValidateCNPJOnline_success UploadNGODocuments_success zero_clock_def)

subsection \<open>Duplicate tax IDs\<close>

text \<open>
  What the duplicate check does reject: a request whose tax-ID string equals, byte for
  byte, the one of a registration (of any status) or of an active organization fails
  with a DuplicateTaxID error and leaves the state as it was; so does the second of two
  register calls with the same string.
\<close>

lemma RegisterNGO_same_string_rejected:
  "((\<exists>reg \<in> set (ngoRegistrations s). reg_CNPJ reg = req_CNPJ req)
      \<or> (\<exists>ngo \<in> set (ngos s). ngo_CNPJ ngo = req_CNPJ req)
     \<longrightarrow> (\<exists>e. RegisterNGO s req clock = Inl e \<and> kind_of e = DuplicateTaxID)
         \<and> step s (Register req clock) = s)
   \<and> (req_CNPJ req2 = req_CNPJ req1
     \<longrightarrow> (\<exists>e. RegisterNGO (step s (Register req1 clock1)) req2 clock2 = Inl e
               \<and> kind_of e = DuplicateTaxID)
         \<and> step (step s (Register req1 clock1)) (Register req2 clock2)
             = step s (Register req1 clock1))"
proof -
  have dup: "(\<exists>e. RegisterNGO s' r c = Inl e \<and> kind_of e = DuplicateTaxID)
             \<and> step s' (Register r c) = s'"
    if "(\<exists>reg \<in> set (ngoRegistrations s'). reg_CNPJ reg = req_CNPJ r)
        \<or> (\<exists>ngo \<in> set (ngos s'). ngo_CNPJ ngo = req_CNPJ r)" for s' r c
  proof (cases "\<exists>reg \<in> set (ngoRegistrations s'). reg_CNPJ reg = req_CNPJ r")
    case True
    then show ?thesis by (simp add: RegisterNGO_registered state_after_def)
  next
    case False
    with that have "\<exists>ngo \<in> set (ngos s'). ngo_CNPJ ngo = req_CNPJ r" by blast
    with False show ?thesis by (simp add: RegisterNGO_active state_after_def)
  qed
  have second: "(\<exists>reg \<in> set (ngoRegistrations (step s (Register req1 clock1))).
                   reg_CNPJ reg = req_CNPJ req2)
                \<or> (\<exists>ngo \<in> set (ngos (step s (Register req1 clock1))).
                   ngo_CNPJ ngo = req_CNPJ req2)"
    if eq: "req_CNPJ req2 = req_CNPJ req1"
  proof (cases "(\<exists>reg \<in> set (ngoRegistrations s). reg_CNPJ reg = req_CNPJ req1)
                \<or> (\<exists>ngo \<in> set (ngos s). ngo_CNPJ ngo = req_CNPJ req1)")
    case True
    from dup [OF True] have "step s (Register req1 clock1) = s" by simp
    with True eq show ?thesis by simp
  next
    case False
    then show ?thesis
      by (simp add: RegisterNGO_success state_after_def eq)
  qed
  show ?thesis
    using dup [of s req clock] dup [OF second] by blast
qed

lemma example_plain_valid: "validateCNPJFormat ''11222333000181'' = (True, msg_valid)"
  unfolding validateCNPJFormat_unfold
  by (simp add: strip_non_digits_def is_digit_def digit_value_def check_digit_def
      all_digits_equal_def weight1_def weight2_def)

text \<open>
  Claim C7 says that a request whose tax ID already belongs to a registration fails with
  DuplicateTaxID. The source compares the tax-ID strings as submitted, while its
  validator reads only their digits: after the tax ID 11.222.333/0001-81 is registered,
  the same fourteen digits written 11222333000181 are registered again, and both records
  are held, each with a valid checksum.
\<close>

theorem RegisterNGO_same_digits_twice:
  "strip_non_digits (req_CNPJ example_request_plain)
     = strip_non_digits (req_CNPJ example_request)
   \<and> \<not> isl (RegisterNGO (step empty_service (Register example_request zero_clock))
              example_request_plain zero_clock)
   \<and> map reg_CNPJ (ngoRegistrations (run empty_service
         [Register example_request zero_clock, Register example_request_plain zero_clock]))
       = [''11.222.333/0001-81'', ''11222333000181'']
   \<and> map reg_CNPJValid (ngoRegistrations (run empty_service
         [Register example_request zero_clock, Register example_request_plain zero_clock]))
       = [True, True]
   \<and> map reg_ID (ngoRegistrations (run empty_service
         [Register example_request zero_clock, Register example_request_plain zero_clock]))
       = [1, 2]"
proof -
  define s1 where "s1 = step empty_service (Register example_request zero_clock)"
  have regs1: "map reg_CNPJ (ngoRegistrations s1) = [''11.222.333/0001-81'']"
    "map reg_CNPJValid (ngoRegistrations s1) = [True]"
    "map reg_ID (ngoRegistrations s1) = [1]"
    and ngos1: "ngos s1 = []"
    by (simp_all add: s1_def empty_service_def NewAdminService_def state_after_def
        RegisterNGO_success example_request_def example_valid)
  have fresh: "\<forall>reg \<in> set (ngoRegistrations s1). reg_CNPJ reg \<noteq> req_CNPJ example_request_plain"
  proof
    fix reg assume "reg \<in> set (ngoRegistrations s1)"
    then have "reg_CNPJ reg \<in> set (map reg_CNPJ (ngoRegistrations s1))" by simp
    then show "reg_CNPJ reg \<noteq> req_CNPJ example_request_plain"
      by (simp add: regs1 example_request_plain_def)
  qed
  have none: "\<forall>ngo \<in> set (ngos s1). ngo_CNPJ ngo \<noteq> req_CNPJ example_request_plain"
    by (simp add: ngos1)
  note R = RegisterNGO_success [OF fresh none, of zero_clock]
  have a: "strip_non_digits (req_CNPJ example_request_plain)
             = strip_non_digits (req_CNPJ example_request)"
    by (simp add: example_request_plain_def example_request_def strip_non_digits_def
        is_digit_def)
  have b: "\<not> isl (RegisterNGO s1 example_request_plain zero_clock)"
    unfolding R by simp
  have run2: "run empty_service
         [Register example_request zero_clock, Register example_request_plain zero_clock]
       = step s1 (Register example_request_plain zero_clock)"
    by (simp only: run_def foldl_Cons foldl_Nil s1_def)
  have c: "map reg_CNPJ (ngoRegistrations (step s1 (Register example_request_plain zero_clock)))
       = [''11.222.333/0001-81'', ''11222333000181'']"
    unfolding step.simps R
    by (simp add: state_after_def regs1 example_request_plain_def)
  have d: "map reg_CNPJValid
         (ngoRegistrations (step s1 (Register example_request_plain zero_clock)))
       = [True, True]"
    unfolding step.simps R
    by (simp add: state_after_def regs1 example_request_plain_def example_plain_valid)
  have e: "map reg_ID (ngoRegistrations (step s1 (Register example_request_plain zero_clock)))
       = [1, 2]"
  proof -
    have "length (map reg_ID (ngoRegistrations s1)) = 1" by (simp only: regs1) simp
    then have len: "length (ngoRegistrations s1) = 1" by simp
    show ?thesis
      unfolding step.simps R
      by (simp add: state_after_def regs1 len)
  qed
  show ?thesis
    unfolding run2 using a b c d e unfolding s1_def by (intro conjI)
qed

subsection \<open>Approval\<close>


lemma example_uploaded_find:
  "findRegistration (ngoRegistrations example_uploaded) 1 0 =
     Some (0, ngoRegistrations example_uploaded ! 0)"
  by (simp add: example_uploaded_regs)


subsection \<open>Minted references pass the format checks\<close>

lemma ApproveNGO_Inr_found:
  assumes "ApproveNGO s rid adminID comments rnd clock = Inr (s', ngo)"
  shows "\<exists>i reg. findRegistration (ngoRegistrations s) rid 0 = Some (i, reg)
           \<and> reg_CNPJValid reg \<and> reg_DocumentsIPFS reg \<noteq> []"
proof (cases "findRegistration (ngoRegistrations s) rid 0")
  case None
  with assms show ?thesis by (simp add: ApproveNGO_absent)
next
  case (Some p)
  obtain i reg where p: "p = (i, reg)" by (cases p)
  show ?thesis
  proof (cases "reg_CNPJValid reg")
    case False
    with assms Some p show ?thesis by (simp add: ApproveNGO_not_valid)
  next
    case True
    show ?thesis
    proof (cases "reg_DocumentsIPFS reg = []")
      case e: True
      with assms Some p True show ?thesis by (simp add: ApproveNGO_no_documents)
    next
      case False
      with Some p True show ?thesis by simp
    qed
  qed
qed

lemma UploadNGODocuments_Inr_found:
  assumes "UploadNGODocuments s rid content rnd clock = Inr (s', r)"
  shows "\<exists>i reg. findRegistration (ngoRegistrations s) rid 0 = Some (i, reg)
           \<and> reg_CNPJValid reg"
proof (cases "findRegistration (ngoRegistrations s) rid 0")
  case None
  with assms show ?thesis by (simp add: UploadNGODocuments_absent)
next
  case (Some p)
  obtain i reg where p: "p = (i, reg)" by (cases p)
  show ?thesis
  proof (cases "reg_CNPJValid reg")
    case False
    with assms Some p show ?thesis by (simp add: UploadNGODocuments_invalid)
  next
    case True
    with Some p show ?thesis by simp
  qed
qed

text \<open>
  Claim C10. Every ledger reference minted by \<open>ApproveNGO\<close>, whatever the generator
  draws, passes \<open>verifyBlockchainReference\<close>, in the returned organization and in the
  stored registration; every document-store reference assigned by
  \<open>UploadNGODocuments\<close> passes \<open>verifyIPFSReference\<close>.
\<close>

theorem minted_references_verify:
  "verifyBlockchainReference (generateMockTransactionHash rnd)
   \<and> verifyIPFSReference (''Qm'' @ generateMockHash 46 rnd)
   \<and> (\<forall>s' ngo. ApproveNGO s rid adminID comments rnd clock = Inr (s', ngo) \<longrightarrow>
         verifyBlockchainReference (ngo_BlockchainRef ngo)
         \<and> (\<exists>i < length (ngoRegistrations s').
               reg_ID (ngoRegistrations s' ! i) = rid
               \<and> reg_Status (ngoRegistrations s' ! i) = NGOStatusApproved
               \<and> verifyBlockchainReference (reg_BlockchainRef (ngoRegistrations s' ! i))))
   \<and> (\<forall>s' reg. UploadNGODocuments s rid content rnd clock = Inr (s', reg) \<longrightarrow>
         verifyIPFSReference (reg_DocumentsIPFS reg)
         \<and> (\<exists>i < length (ngoRegistrations s').
               ngoRegistrations s' ! i = reg \<and> reg_ID reg = rid))"
proof (intro conjI allI impI)
  show "verifyBlockchainReference (generateMockTransactionHash rnd)"
    by (rule generateMockTransactionHash_verifies)
  show "verifyIPFSReference (''Qm'' @ generateMockHash 46 rnd)"
    by (rule mock_ipfs_verifies)
next
  fix s' ngo
  assume a: "ApproveNGO s rid adminID comments rnd clock = Inr (s', ngo)"
  from ApproveNGO_Inr_found [OF a] obtain i reg where
    f: "findRegistration (ngoRegistrations s) rid 0 = Some (i, reg)"
    and v: "reg_CNPJValid reg" and d: "reg_DocumentsIPFS reg \<noteq> []"
    by blast
  from a have ngo: "ngo_BlockchainRef ngo = generateMockTransactionHash rnd"
    and regs: "ngoRegistrations s' = (ngoRegistrations s)
               [i := reg\<lparr>reg_BlockchainRef := generateMockTransactionHash rnd,
                         reg_Status := NGOStatusApproved,
                         reg_AdminComments := comments,
                         reg_UpdatedAt := clock 1\<rparr>]"
    unfolding ApproveNGO_success [OF f v d] by auto
  show "verifyBlockchainReference (ngo_BlockchainRef ngo)"
    by (simp add: ngo generateMockTransactionHash_verifies)
  have i: "i < length (ngoRegistrations s)" "reg_ID reg = rid"
    using findRegistration_0 [OF f] by simp_all
  show "\<exists>i < length (ngoRegistrations s').
               reg_ID (ngoRegistrations s' ! i) = rid
               \<and> reg_Status (ngoRegistrations s' ! i) = NGOStatusApproved
               \<and> verifyBlockchainReference (reg_BlockchainRef (ngoRegistrations s' ! i))"
    using i by (intro exI [of _ i]) (simp add: regs generateMockTransactionHash_verifies)
next
  fix s' r
  assume a: "UploadNGODocuments s rid content rnd clock = Inr (s', r)"
  from UploadNGODocuments_Inr_found [OF a] obtain i reg where
    f: "findRegistration (ngoRegistrations s) rid 0 = Some (i, reg)"
    and v: "reg_CNPJValid reg"
    by blast
  from a have r: "r = reg\<lparr>reg_DocumentsIPFS := ''Qm'' @ generateMockHash 46 rnd,
                          reg_UpdatedAt := clock 1\<rparr>"
    and regs: "ngoRegistrations s' = (ngoRegistrations s)
               [i := reg\<lparr>reg_DocumentsIPFS := ''Qm'' @ generateMockHash 46 rnd,
                         reg_UpdatedAt := clock 1\<rparr>]"
    unfolding UploadNGODocuments_success [OF f v] by auto
  show "verifyIPFSReference (reg_DocumentsIPFS r)"
    using mock_ipfs_verifies [of rnd] by (simp add: r)
  have i: "i < length (ngoRegistrations s)" "reg_ID reg = rid"
    using findRegistration_0 [OF f] by simp_all
  show "\<exists>i < length (ngoRegistrations s'). ngoRegistrations s' ! i = r \<and> reg_ID r = rid"
    using i by (intro exI [of _ i]) (simp add: regs r)
qed

theorem minted_references_verify_witness:
  "verifyBlockchainReference
     (ngo_BlockchainRef (snd (projr (ApproveNGO example_uploaded 1 7 ''ok'' zero_rnd zero_clock))))
   \<and> verifyIPFSReference
     (reg_DocumentsIPFS (snd (projr (UploadNGODocuments example_uploaded 1 [] zero_rnd zero_clock))))"
proof -
  have c: "reg_CNPJValid (ngoRegistrations example_uploaded ! 0)"
    "reg_DocumentsIPFS (ngoRegistrations example_uploaded ! 0) \<noteq> []"
    by (simp_all add: example_uploaded_regs)
  have a: "ApproveNGO example_uploaded 1 7 ''ok'' zero_rnd zero_clock =
        Inr (projr (ApproveNGO example_uploaded 1 7 ''ok'' zero_rnd zero_clock))"
    unfolding ApproveNGO_success [OF example_uploaded_find c] by simp
  have u: "UploadNGODocuments example_uploaded 1 [] zero_rnd zero_clock =
        Inr (projr (UploadNGODocuments example_uploaded 1 [] zero_rnd zero_clock))"
    unfolding UploadNGODocuments_success [OF example_uploaded_find c(1)] by simp
  note T = minted_references_verify [of zero_rnd example_uploaded 1 7 "''ok''" zero_clock "[]"]
  from T a have "verifyBlockchainReference
     (ngo_BlockchainRef (snd (projr (ApproveNGO example_uploaded 1 7 ''ok'' zero_rnd zero_clock))))"
    by (metis prod.collapse)
  moreover from T u have "verifyIPFSReference
     (reg_DocumentsIPFS (snd (projr (UploadNGODocuments example_uploaded 1 [] zero_rnd zero_clock))))"
    by (metis prod.collapse)
  ultimately show ?thesis by simp
qed

subsection \<open>Auditing an organization\<close>

lemma verifyBlockchainReference_format:
  "verifyBlockchainReference r \<longleftrightarrow> spec_ledger_format r"
proof (cases "length r = 66")
  case True
  then have "r \<noteq> []" "\<not> length r < 2" "length (drop 2 r) = 64" by auto
  with True show ?thesis
    by (simp add: verifyBlockchainReference_def spec_ledger_format_def
        hexPattern_MatchString_def list_all_iff)
next
  case False
  then show ?thesis
    by (simp add: verifyBlockchainReference_def spec_ledger_format_def)
qed

lemma AuditEntity_resolved:
  assumes "resolveReferences s req = Inr (blockchainRef, ipfsRef)"
  shows "\<exists>s' res. AuditEntity s req adminID clock = Inr (s', res)
     \<and> res_BlockchainValid res = verifyBlockchainReference blockchainRef
     \<and> res_IPFSValid res = verifyIPFSReference ipfsRef
     \<and> res_BlockchainRef res = blockchainRef \<and> res_IPFSRef res = ipfsRef
     \<and> res_ValidationErrors res =
          (if verifyBlockchainReference blockchainRef then [] else [msg_blockchain_invalid])
          @ (if verifyIPFSReference ipfsRef then [] else [msg_ipfs_invalid])
     \<and> (\<exists>entry. auditLogs s' = auditLogs s @ [entry]
            \<and> log_Action entry = ''audit_performed'' \<and> log_AdminID entry = adminID
            \<and> log_EntityType entry = areq_EntityType req
            \<and> log_EntityID entry = areq_EntityID req)
     \<and> ngos s' = ngos s \<and> ngoRegistrations s' = ngoRegistrations s
     \<and> donationService s' = donationService s \<and> expenseService s' = expenseService s"
  unfolding AuditEntity_def assms
  by (simp add: Let_def logAuditAction_def)

lemma AuditEntity_failed:
  "resolveReferences s req = Inl e \<Longrightarrow> AuditEntity s req adminID clock = Inl e"
  by (simp add: AuditEntity_def)

lemma AuditEntity_Inr_resolved:
  assumes "AuditEntity s req adminID clock = Inr (s', res)"
  shows "\<exists>b i. resolveReferences s req = Inr (b, i)"
proof (cases "resolveReferences s req")
  case (Inl e)
  with assms show ?thesis by (simp add: AuditEntity_failed)
next
  case (Inr p)
  then show ?thesis by (cases p) simp
qed

lemma resolveReferences_ngo:
  "find (\<lambda>ngo. ngo_ID ngo = eid) (ngos s) = Some ngo \<Longrightarrow>
   resolveReferences s \<lparr>areq_EntityType = ''ngo'', areq_EntityID = eid\<rparr>
     = Inr (ngo_BlockchainRef ngo, ngo_DocumentsIPFS ngo)"
  by (simp add: resolveReferences_def)


text \<open>
  Claim C9. Auditing an existing organization returns a result whose ledger flag says
  whether the stored ledger reference has the format of the specification (the prefix
  followed by exactly 64 hexadecimal characters, 66 characters in all); when it has
  not, the flag is false and the list of validation errors is not empty. Every audit
  that returns a result, whatever the flags, has appended exactly one entry to the
  audit log and changed nothing else.
\<close>

theorem AuditEntity_malformed_ledger:
  "(\<forall>ngo. find (\<lambda>ngo. ngo_ID ngo = eid) (ngos s) = Some ngo \<longrightarrow>
      (\<exists>s' res. AuditEntity s \<lparr>areq_EntityType = ''ngo'', areq_EntityID = eid\<rparr>
                   adminID clock = Inr (s', res)
         \<and> res_BlockchainValid res = spec_ledger_format (ngo_BlockchainRef ngo)
         \<and> (\<not> spec_ledger_format (ngo_BlockchainRef ngo) \<longrightarrow>
               \<not> res_BlockchainValid res \<and> res_ValidationErrors res \<noteq> [])
         \<and> (\<exists>entry. auditLogs s' = auditLogs s @ [entry])))
   \<and> (\<forall>s' res. AuditEntity s req adminID clock = Inr (s', res) \<longrightarrow>
         (\<exists>entry. auditLogs s' = auditLogs s @ [entry]
            \<and> log_Action entry = ''audit_performed'')
         \<and> ngos s' = ngos s \<and> ngoRegistrations s' = ngoRegistrations s
         \<and> donationService s' = donationService s
         \<and> expenseService s' = expenseService s)"
proof (intro conjI allI impI)
  fix ngo
  assume f: "find (\<lambda>ngo. ngo_ID ngo = eid) (ngos s) = Some ngo"
  from AuditEntity_resolved [OF resolveReferences_ngo [OF f], of adminID clock]
  obtain s' res where
    r: "AuditEntity s \<lparr>areq_EntityType = ''ngo'', areq_EntityID = eid\<rparr> adminID clock
          = Inr (s', res)"
    and v: "res_BlockchainValid res = verifyBlockchainReference (ngo_BlockchainRef ngo)"
    and e: "res_ValidationErrors res =
          (if verifyBlockchainReference (ngo_BlockchainRef ngo) then []
           else [msg_blockchain_invalid])
          @ (if verifyIPFSReference (ngo_DocumentsIPFS ngo) then [] else [msg_ipfs_invalid])"
    and l: "\<exists>entry. auditLogs s' = auditLogs s @ [entry]"
    by blast
  have "\<not> spec_ledger_format (ngo_BlockchainRef ngo) \<longrightarrow>
          \<not> res_BlockchainValid res \<and> res_ValidationErrors res \<noteq> []"
    by (simp add: v e verifyBlockchainReference_format)
  with r v l show "\<exists>s' res. AuditEntity s \<lparr>areq_EntityType = ''ngo'', areq_EntityID = eid\<rparr>
                   adminID clock = Inr (s', res)
         \<and> res_BlockchainValid res = spec_ledger_format (ngo_BlockchainRef ngo)
         \<and> (\<not> spec_ledger_format (ngo_BlockchainRef ngo) \<longrightarrow>
               \<not> res_BlockchainValid res \<and> res_ValidationErrors res \<noteq> [])
         \<and> (\<exists>entry. auditLogs s' = auditLogs s @ [entry])"
    by (simp add: verifyBlockchainReference_format)
next
  fix s' res
  assume a: "AuditEntity s req adminID clock = Inr (s', res)"
  from AuditEntity_Inr_resolved [OF a] obtain b i where
    "resolveReferences s req = Inr (b, i)" by blast
  from AuditEntity_resolved [OF this, of adminID clock] a
  have "(\<exists>entry. auditLogs s' = auditLogs s @ [entry]
            \<and> log_Action entry = ''audit_performed'')
     \<and> ngos s' = ngos s \<and> ngoRegistrations s' = ngoRegistrations s
     \<and> donationService s' = donationService s \<and> expenseService s' = expenseService s"
    by auto
  then show "\<exists>entry. auditLogs s' = auditLogs s @ [entry]
            \<and> log_Action entry = ''audit_performed''"
    and "ngos s' = ngos s" and "ngoRegistrations s' = ngoRegistrations s"
    and "donationService s' = donationService s"
    and "expenseService s' = expenseService s"
    by simp_all
qed

theorem AuditEntity_malformed_ledger_witness:
  "\<exists>s' res. AuditEntity example_malformed \<lparr>areq_EntityType = ''ngo'', areq_EntityID = 1\<rparr>
        7 zero_clock = Inr (s', res)
     \<and> \<not> res_BlockchainValid res \<and> res_ValidationErrors res \<noteq> []
     \<and> length (auditLogs s') = length (auditLogs example_malformed) + 1"
proof -
  let ?ngo = "hd (ngos example_malformed)"
  have f: "find (\<lambda>ngo. ngo_ID ngo = 1) (ngos example_malformed) = Some ?ngo"
    by (simp add: example_malformed_def)
  have m: "\<not> spec_ledger_format (ngo_BlockchainRef ?ngo)"
    by (simp add: example_malformed_def spec_ledger_format_def)
  note T = AuditEntity_malformed_ledger [of 1 example_malformed 7 zero_clock
      "\<lparr>areq_EntityType = ''ngo'', areq_EntityID = 1\<rparr>",
      THEN conjunct1, THEN spec, THEN mp, OF f]
  show ?thesis
    using T m
    apply (elim exE conjE)
    subgoal for s' res
      apply (rule exI [of _ s'])
      apply (rule exI [of _ res])
      apply simp
      done
    done
qed

subsection \<open>The status after approval and rejection\<close>

lemma example_approved_regs:
  "ngoRegistrations example_approved =
     [\<lparr>reg_ID = 1, reg_Name = ''Casa Azul'', reg_Description = ''Abrigo'',
       reg_Category = ''Outros'', reg_CNPJ = ''11.222.333/0001-81'',
       reg_CNPJValid = True, reg_CNPJValidationMsg = msg_verified_online,
       reg_Email = ''casa@example.org'', reg_Phone = ''5511999990000'',
       reg_Address = ''Rua A, 1'', reg_ResponsibleID = 5, reg_LogoURL = [],
       reg_DocumentsIPFS = ''Qm'' @ generateMockHash 46 zero_rnd,
       reg_BlockchainRef = generateMockTransactionHash zero_rnd,
       reg_Status = NGOStatusApproved, reg_AdminComments = ''ok'',
       reg_CreatedAt = 0, reg_UpdatedAt = 0\<rparr>]"
proof -
  have c: "reg_CNPJValid (ngoRegistrations example_uploaded ! 0)"
    "reg_DocumentsIPFS (ngoRegistrations example_uploaded ! 0) \<noteq> []"
    by (simp_all add: example_uploaded_regs)
  show ?thesis
    unfolding example_approved_def step.simps
      ApproveNGO_success [OF example_uploaded_find c]
    by (simp add: state_after_def example_uploaded_regs zero_clock_def)
qed

lemma example_approved_find:
  "findRegistration (ngoRegistrations example_approved) 1 0 =
     Some (0, ngoRegistrations example_approved ! 0)"
  by (simp add: example_approved_regs)

lemma example_rejected_regs:
  "ngoRegistrations example_rejected =
     [\<lparr>reg_ID = 1, reg_Name = ''Casa Azul'', reg_Description = ''Abrigo'',
       reg_Category = ''Outros'', reg_CNPJ = ''11.222.333/0001-81'',
       reg_CNPJValid = True, reg_CNPJValidationMsg = msg_verified_online,
       reg_Email = ''casa@example.org'', reg_Phone = ''5511999990000'',
       reg_Address = ''Rua A, 1'', reg_ResponsibleID = 5, reg_LogoURL = [],
       reg_DocumentsIPFS = ''Qm'' @ generateMockHash 46 zero_rnd,
       reg_BlockchainRef = generateMockTransactionHash zero_rnd,
       reg_Status = NGOStatusRejected, reg_AdminComments = ''late'',
       reg_CreatedAt = 0, reg_UpdatedAt = 0\<rparr>]"
  unfolding example_rejected_def step.simps RejectNGO_success [OF example_approved_find]
  by (simp add: state_after_def example_approved_regs zero_clock_def)



subsection \<open>What each operation does to the statuses\<close>



subsection \<open>Status and ledger reference along a run\<close>

lemma update_consistent:
  assumes "\<forall>reg \<in> set regs. ledger_consistent reg" and "ledger_consistent r"
  shows "\<forall>reg \<in> set (regs[i := r]). ledger_consistent reg"
  using assms set_update_subset_insert [of regs i r] by auto

lemma step_ledger_consistent:
  assumes inv: "\<forall>reg \<in> set (ngoRegistrations s). ledger_consistent reg"
  shows "\<forall>reg \<in> set (ngoRegistrations (step s a)). ledger_consistent reg"
proof (cases a)
  case (Register req clock)
  show ?thesis
  proof (cases "\<exists>reg \<in> set (ngoRegistrations s). reg_CNPJ reg = req_CNPJ req")
    case True
    with inv Register show ?thesis by (simp add: RegisterNGO_registered state_after_def)
  next
    case nr: False
    show ?thesis
    proof (cases "\<exists>ngo \<in> set (ngos s). ngo_CNPJ ngo = req_CNPJ req")
      case True
      with nr inv Register show ?thesis by (simp add: RegisterNGO_active state_after_def)
    next
      case False
      with nr inv Register show ?thesis
        by (simp add: RegisterNGO_success state_after_def ledger_consistent_def)
    qed
  qed
next
  case (ValidateOnline rid clock)
  show ?thesis
  proof (cases "findRegistration (ngoRegistrations s) rid 0")
    case None
    with inv ValidateOnline show ?thesis
      by (simp add: ValidateCNPJOnline_absent state_after_def)
  next
    case (Some p)
    obtain i reg where p: "p = (i, reg)" by (cases p)
    with Some have f: "findRegistration (ngoRegistrations s) rid 0 = Some (i, reg)" by simp
    have "reg \<in> set (ngoRegistrations s)"
      using findRegistration_0 [OF f] by (metis nth_mem)
    with inv have lc: "ledger_consistent reg" by blast
    show ?thesis
    proof (cases "reg_CNPJValid reg")
      case False
      with inv ValidateOnline show ?thesis
        by (simp add: ValidateCNPJOnline_invalid [OF f] state_after_def)
    next
      case True
      have "ledger_consistent (reg\<lparr>reg_CNPJValid := True,
              reg_CNPJValidationMsg := msg_verified_online,
              reg_Status := NGOStatusValidating, reg_UpdatedAt := clock 0\<rparr>)"
        using lc by (simp add: ledger_consistent_def)
      from update_consistent [OF inv this] ValidateOnline show ?thesis
        by (simp add: ValidateCNPJOnline_success [OF f True] state_after_def)
    qed
  qed
next
  case (Upload rid content rnd clock)
  show ?thesis
  proof (cases "findRegistration (ngoRegistrations s) rid 0")
    case None
    with inv Upload show ?thesis
      by (simp add: UploadNGODocuments_absent state_after_def)
  next
    case (Some p)
    obtain i reg where p: "p = (i, reg)" by (cases p)
    with Some have f: "findRegistration (ngoRegistrations s) rid 0 = Some (i, reg)" by simp
    have "reg \<in> set (ngoRegistrations s)"
      using findRegistration_0 [OF f] by (metis nth_mem)
    with inv have lc: "ledger_consistent reg" by blast
    show ?thesis
    proof (cases "reg_CNPJValid reg")
      case False
      with inv Upload show ?thesis
        by (simp add: UploadNGODocuments_invalid [OF f] state_after_def)
    next
      case True
      have "ledger_consistent (reg\<lparr>reg_DocumentsIPFS := ''Qm'' @ generateMockHash 46 rnd,
              reg_UpdatedAt := clock 1\<rparr>)"
        using lc by (simp add: ledger_consistent_def)
      from update_consistent [OF inv this] Upload show ?thesis
        by (simp add: UploadNGODocuments_success [OF f True] state_after_def)
    qed
  qed
next
  case (Approve rid adminID comments rnd clock)
  show ?thesis
  proof (cases "findRegistration (ngoRegistrations s) rid 0")
    case None
    with inv Approve show ?thesis by (simp add: ApproveNGO_absent state_after_def)
  next
    case (Some p)
    obtain i reg where p: "p = (i, reg)" by (cases p)
    with Some have f: "findRegistration (ngoRegistrations s) rid 0 = Some (i, reg)" by simp
    show ?thesis
    proof (cases "reg_CNPJValid reg")
      case False
      with inv Approve show ?thesis
        by (simp add: ApproveNGO_not_valid [OF f] state_after_def)
    next
      case True
      show ?thesis
      proof (cases "reg_DocumentsIPFS reg = []")
        case e: True
        with inv Approve show ?thesis
          by (simp add: ApproveNGO_no_documents [OF f True] state_after_def)
      next
        case False
        have "ledger_consistent (reg\<lparr>reg_BlockchainRef := generateMockTransactionHash rnd,
                reg_Status := NGOStatusApproved, reg_AdminComments := comments,
                reg_UpdatedAt := clock 1\<rparr>)"
          by (simp add: ledger_consistent_def generateMockTransactionHash_nonempty)
        from update_consistent [OF inv this] Approve show ?thesis
          by (simp add: ApproveNGO_success [OF f True False] state_after_def)
      qed
    qed
  qed
next
  case (Reject rid adminID reason clock)
  show ?thesis
  proof (cases "findRegistration (ngoRegistrations s) rid 0")
    case None
    with inv Reject show ?thesis by (simp add: RejectNGO_absent state_after_def)
  next
    case (Some p)
    obtain i reg where p: "p = (i, reg)" by (cases p)
    with Some have f: "findRegistration (ngoRegistrations s) rid 0 = Some (i, reg)" by simp
    have "ledger_consistent (reg\<lparr>reg_Status := NGOStatusRejected,
            reg_AdminComments := reason, reg_UpdatedAt := clock 0\<rparr>)"
      by (simp add: ledger_consistent_def)
    from update_consistent [OF inv this] Reject show ?thesis
      by (simp add: RejectNGO_success [OF f] state_after_def)
  qed
next
  case (Audit req adminID clock)
  show ?thesis
  proof (cases "resolveReferences s req")
    case (Inl e)
    with inv Audit show ?thesis by (simp add: AuditEntity_failed state_after_def)
  next
    case (Inr p)
    obtain b i where "p = (b, i)" by (cases p)
    with Inr have "resolveReferences s req = Inr (b, i)" by simp
    from AuditEntity_resolved [OF this, of adminID clock]
    obtain s' res where "AuditEntity s req adminID clock = Inr (s', res)"
      and "ngoRegistrations s' = ngoRegistrations s"
      by blast
    with inv Audit show ?thesis by (simp add: state_after_def)
  qed
next
  case (External ds rs es)
  with inv show ?thesis by simp
qed

lemma run_ledger_consistent:
  "\<forall>reg \<in> set (ngoRegistrations s). ledger_consistent reg \<Longrightarrow>
   \<forall>reg \<in> set (ngoRegistrations (run s acts)). ledger_consistent reg"
  unfolding run_def
proof (induction acts arbitrary: s)
  case Nil
  then show ?case by simp
next
  case (Cons a acts)
  from Cons.IH [OF step_ledger_consistent [OF Cons.prems, of a]]
  show ?case by simp
qed

subsection \<open>The ledger reference in reachable states\<close>

lemma example_approved_run:
  "example_approved =
     run (NewAdminService \<lparr>ds_donations = [], ds_ngos = [], ds_receipts = []\<rparr>
            \<lparr>es_expenses = []\<rparr>)
       [Register example_request zero_clock, ValidateOnline 1 zero_clock,
        Upload 1 [] zero_rnd zero_clock, Approve 1 7 ''ok'' zero_rnd zero_clock]"
  by (simp only: example_approved_def example_uploaded_def empty_service_def run_def
      foldl_Cons foldl_Nil)

lemma example_rejected_run:
  "example_rejected =
     run empty_service
       [Register example_request zero_clock, ValidateOnline 1 zero_clock,
        Upload 1 [] zero_rnd zero_clock, Approve 1 7 ''ok'' zero_rnd zero_clock,
        Reject 1 7 ''late'' zero_clock]"
  by (simp only: example_rejected_def example_approved_def example_uploaded_def run_def
      foldl_Cons foldl_Nil)

text \<open>
  Claim C2 says that in every reachable state a record has a ledger reference exactly
  when it is approved. Rejecting the approved example record leaves its ledger
  reference in place: the state is reached by five operations, the reference is not
  empty and the status is rejected.
\<close>

theorem ledger_reference_counterexample:
  "example_rejected =
     run empty_service
       [Register example_request zero_clock, ValidateOnline 1 zero_clock,
        Upload 1 [] zero_rnd zero_clock, Approve 1 7 ''ok'' zero_rnd zero_clock,
        Reject 1 7 ''late'' zero_clock]
   \<and> reg_BlockchainRef (ngoRegistrations example_rejected ! 0) \<noteq> []
   \<and> reg_Status (ngoRegistrations example_rejected ! 0) = NGOStatusRejected
   \<and> \<not> (reg_BlockchainRef (ngoRegistrations example_rejected ! 0) \<noteq> []
          \<longleftrightarrow> reg_Status (ngoRegistrations example_rejected ! 0) = NGOStatusApproved)"
proof -
  have "reg_BlockchainRef (ngoRegistrations example_rejected ! 0) \<noteq> []"
    by (simp add: example_rejected_regs generateMockTransactionHash_nonempty)
  moreover have "reg_Status (ngoRegistrations example_rejected ! 0) = NGOStatusRejected"
    by (simp add: example_rejected_regs)
  ultimately show ?thesis
    using example_rejected_run by simp
qed

text \<open>
  Claim C2, amended. In every state reached from a new service by any sequence of
  operations, every approved record has a ledger reference, and every record with a
  ledger reference has left the pending status.
\<close>

theorem ledger_reference_invariant:
  "\<forall>reg \<in> set (ngoRegistrations (run (NewAdminService donationSvc expenseSvc) acts)).
     (reg_Status reg = NGOStatusApproved \<longrightarrow> reg_BlockchainRef reg \<noteq> [])
     \<and> (reg_BlockchainRef reg \<noteq> [] \<longrightarrow> reg_Status reg \<noteq> NGOStatusPending)"
proof -
  have "\<forall>reg \<in> set (ngoRegistrations (NewAdminService donationSvc expenseSvc)).
          ledger_consistent reg"
    by (simp add: NewAdminService_def)
  from run_ledger_consistent [OF this, of acts] show ?thesis
    by (simp add: ledger_consistent_def)
qed

theorem ledger_reference_invariant_witness:
  "reg_Status (ngoRegistrations example_approved ! 0) = NGOStatusApproved
   \<and> reg_BlockchainRef (ngoRegistrations example_approved ! 0) \<noteq> []"
proof -
  have m: "ngoRegistrations example_approved ! 0 \<in> set (ngoRegistrations example_approved)"
    by (simp add: example_approved_regs)
  have a: "reg_Status (ngoRegistrations example_approved ! 0) = NGOStatusApproved"
    by (simp add: example_approved_regs)
  note T = ledger_reference_invariant [of
      "\<lparr>ds_donations = [], ds_ngos = [], ds_receipts = []\<rparr>" "\<lparr>es_expenses = []\<rparr>"
      "[Register example_request zero_clock, ValidateOnline 1 zero_clock,
        Upload 1 [] zero_rnd zero_clock, Approve 1 7 ''ok'' zero_rnd zero_clock]",
      folded example_approved_run, THEN bspec, OF m, THEN conjunct1, THEN mp, OF a]
  from a T show ?thesis by (intro conjI)
qed

end
